theory Spec2Isabelle
  imports Main "HOL-Library.Word"
begin

section \<open>JavaScript strings\<close>

text \<open>
  A JavaScript string is a sequence of UTF-16 code units; \<open>length\<close>, \<open>slice\<close>,
  \<open>split\<close> and \<open>trim\<close> all work on code units. ASCII literals of the source are
  written \<open>asc ''...''\<close>.
\<close>

type_synonym cu = "16 word"
type_synonym jstr = "cu list"

definition asc :: "string \<Rightarrow> jstr" where
  "asc s = map of_char s"

text \<open>
  The code units removed by \<open>String.prototype.trim\<close> and matched by \<open>\s\<close> in a
  regular expression: WhiteSpace (TAB, VT, FF, SP, NBSP, ZWNBSP and the category Zs) and
  LineTerminator (LF, CR, LS, PS).
\<close>

definition is_ws :: "cu \<Rightarrow> bool" where
  "is_ws c \<longleftrightarrow>
     c = 0x9 \<or> c = 0xA \<or> c = 0xB \<or> c = 0xC \<or> c = 0xD \<or> c = 0x20 \<or> c = 0xA0 \<or>
     c = 0x1680 \<or> (0x2000 \<le> c \<and> c \<le> 0x200A) \<or> c = 0x2028 \<or> c = 0x2029 \<or>
     c = 0x202F \<or> c = 0x205F \<or> c = 0x3000 \<or> c = 0xFEFF"

definition trim :: "jstr \<Rightarrow> jstr" where
  "trim s = rev (dropWhile is_ws (rev (dropWhile is_ws s)))"

text \<open>\<open>s.split(d)\<close> for a one-unit separator: never empty, \<open>"".split(",")\<close> is \<open>[""]\<close>.\<close>

fun split_on :: "cu \<Rightarrow> jstr \<Rightarrow> jstr list" where
  "split_on d [] = [[]]"
| "split_on d (c # cs) =
     (if c = d then [] # split_on d cs
      else (c # hd (split_on d cs)) # tl (split_on d cs))"

text \<open>\<open>xs.join(sep)\<close> on strings.\<close>

fun join :: "jstr \<Rightarrow> jstr list \<Rightarrow> jstr" where
  "join sep [] = []"
| "join sep [x] = x"
| "join sep (x # y # ys) = x @ sep @ join sep (y # ys)"

section \<open>JavaScript values\<close>

text \<open>
  A number is represented by what this program observes of it: whether it is falsy
  (\<open>0\<close>, \<open>-0\<close>, \<open>NaN\<close>), whether it is finite, and its \<open>String(n)\<close> text.
  A bigint is represented by whether it is \<open>0n\<close> and by its decimal text, a symbol by
  its description (empty when it has none).
  A function is represented by its source text (what \<open>String(f)\<close> gives) and by the
  outcome of calling and awaiting it: \<open>None\<close> when the call throws or the promise
  rejects, otherwise the value obtained.
  An object is the list of its own enumerable properties in the order in which
  \<open>Object.values\<close> enumerates them.
\<close>

datatype jsnum = Num (num_falsy: bool) (num_finite: bool) (num_text: jstr)

datatype jsval =
    VUndef
  | VNull
  | VBool bool
  | VNum jsnum
  | VBigInt bool jstr
  | VStr jstr
  | VSym jstr
  | VArr "jsval list"
  | VObj "(jstr \<times> jsval) list"
  | VFun jstr "jsval option"

datatype error = TypeError | Thrown | SyntaxError

fun truthy :: "jsval \<Rightarrow> bool" where
  "truthy VUndef = False"
| "truthy VNull = False"
| "truthy (VBool b) = b"
| "truthy (VNum n) = (\<not> num_falsy n)"
| "truthy (VBigInt z t) = (\<not> z)"
| "truthy (VSym d) = True"
| "truthy (VStr s) = (s \<noteq> [])"
| "truthy (VArr xs) = True"
| "truthy (VObj kv) = True"
| "truthy (VFun src out) = True"

fun nullish :: "jsval \<Rightarrow> bool" where
  "nullish VUndef = True"
| "nullish VNull = True"
| "nullish v = False"

fun is_string :: "jsval \<Rightarrow> bool" where
  "is_string (VStr s) = True"
| "is_string v = False"

fun is_function :: "jsval \<Rightarrow> bool" where
  "is_function (VFun src out) = True"
| "is_function v = False"

fun is_array :: "jsval \<Rightarrow> bool" where
  "is_array (VArr xs) = True"
| "is_array v = False"

text \<open>\<open>typeof v === "object"\<close>: also true of \<open>null\<close> and of arrays.\<close>

fun typeof_object :: "jsval \<Rightarrow> bool" where
  "typeof_object VNull = True"
| "typeof_object (VArr xs) = True"
| "typeof_object (VObj kv) = True"
| "typeof_object v = False"

text \<open>\<open>a ?? b\<close> and \<open>a || b\<close> on already evaluated operands.\<close>

definition nc :: "jsval \<Rightarrow> jsval \<Rightarrow> jsval" where
  "nc a b = (if nullish a then b else a)"

definition or_else :: "jsval \<Rightarrow> jsval \<Rightarrow> jsval" where
  "or_else a b = (if truthy a then a else b)"

text \<open>
  \<open>v[k]\<close> for a value that is not \<open>null\<close> or \<open>undefined\<close> and a key \<open>k\<close> that no
  prototype defines (every key read through \<open>field\<close> below is of this kind): an own
  property of an object, \<open>undefined\<close> otherwise.
\<close>

fun field :: "jsval \<Rightarrow> jstr \<Rightarrow> jsval" where
  "field (VObj kv) k = (case map_of kv k of None \<Rightarrow> VUndef | Some v \<Rightarrow> v)"
| "field v k = VUndef"

text \<open>\<open>v[k]\<close> in general: reading a property of \<open>null\<close> or \<open>undefined\<close> throws.\<close>

definition get :: "jsval \<Rightarrow> jstr \<Rightarrow> error + jsval" where
  "get v k = (if nullish v then Inl TypeError else Inr (field v k))"

text \<open>\<open>v?.[k]\<close>.\<close>

definition opt_get :: "jsval \<Rightarrow> jstr \<Rightarrow> jsval" where
  "opt_get v k = (if nullish v then VUndef else field v k)"

text \<open>\<open>Object.values(v)\<close> for a value with \<open>typeof v === "object"\<close> that is not null.\<close>

fun object_values :: "jsval \<Rightarrow> jsval list" where
  "object_values (VObj kv) = map snd kv"
| "object_values (VArr xs) = xs"
| "object_values v = []"

subsection \<open>String(v)\<close>

definition bind :: "error + 'a \<Rightarrow> ('a \<Rightarrow> error + 'b) \<Rightarrow> error + 'b" where
  "bind m f = (case m of Inl e \<Rightarrow> Inl e | Inr x \<Rightarrow> f x)"

fun mapM :: "('a \<Rightarrow> error + 'b) \<Rightarrow> 'a list \<Rightarrow> error + 'b list" where
  "mapM f [] = Inr []"
| "mapM f (x # xs) =
     (case f x of Inl e \<Rightarrow> Inl e
      | Inr y \<Rightarrow> (case mapM f xs of Inl e \<Rightarrow> Inl e | Inr ys \<Rightarrow> Inr (y # ys)))"

text \<open>ToString of a primitive value: it throws for a symbol.\<close>

fun prim_to_String :: "jsval \<Rightarrow> error + jstr" where
  "prim_to_String VUndef = Inr (asc ''undefined'')"
| "prim_to_String VNull = Inr (asc ''null'')"
| "prim_to_String (VBool b) = Inr (if b then asc ''true'' else asc ''false'')"
| "prim_to_String (VNum n) = Inr (num_text n)"
| "prim_to_String (VBigInt z t) = Inr t"
| "prim_to_String (VStr s) = Inr s"
| "prim_to_String v = Inl TypeError"

text \<open>The text of a value that is known to be a string.\<close>

fun text_of :: "jsval \<Rightarrow> jstr" where
  "text_of (VStr s) = s"
| "text_of v = []"

fun is_object :: "jsval \<Rightarrow> bool" where
  "is_object (VArr xs) = True"
| "is_object (VObj kv) = True"
| "is_object (VFun src out) = True"
| "is_object v = False"

text \<open>
  OrdinaryToPrimitive with hint string on a plain object: \<open>toString\<close>, then
  \<open>valueOf\<close>; a method that is not callable, or that returns an object, is passed
  over; \<open>Object.prototype.toString\<close> gives \<open>[object Object]\<close> and
  \<open>Object.prototype.valueOf\<close> gives the object back.
\<close>

definition call_method :: "jsval \<Rightarrow> error + jsval option" where
  "call_method m =
     (case m of
        VFun src None \<Rightarrow> Inl Thrown
      | VFun src (Some r) \<Rightarrow> Inr (if is_object r then None else Some r)
      | _ \<Rightarrow> Inr None)"

definition object_to_String :: "(jstr \<times> jsval) list \<Rightarrow> error + jstr" where
  "object_to_String kv =
     (case map_of kv (asc ''toString'') of
        None \<Rightarrow> Inr (asc ''[object Object]'')
      | Some m \<Rightarrow>
          bind (call_method m) (\<lambda>r. case r of
             Some p \<Rightarrow> prim_to_String p
           | None \<Rightarrow>
              (case map_of kv (asc ''valueOf'') of
                 None \<Rightarrow> Inl TypeError
               | Some m' \<Rightarrow>
                   bind (call_method m') (\<lambda>r'. case r' of
                      Some p \<Rightarrow> prim_to_String p
                    | None \<Rightarrow> Inl TypeError))))"

text \<open>
  ToString, the conversion applied by template literals, \<open>join\<close> and \<open>JSON.parse\<close>. An
  array is joined with commas, \<open>null\<close> and \<open>undefined\<close> elements giving the empty string.
\<close>

fun to_String :: "jsval \<Rightarrow> error + jstr"
  and elems_to_String :: "jsval list \<Rightarrow> error + jstr list" where
  "to_String (VArr xs) =
     (case elems_to_String xs of Inl e \<Rightarrow> Inl e | Inr ss \<Rightarrow> Inr (join (asc '','') ss))"
| "to_String (VObj kv) = object_to_String kv"
| "to_String (VFun src out) = Inr src"
| "to_String v = prim_to_String v"
| "elems_to_String [] = Inr []"
| "elems_to_String (x # xs) =
     (case (if nullish x then Inr [] else to_String x) of
        Inl e \<Rightarrow> Inl e
      | Inr s \<Rightarrow> (case elems_to_String xs of Inl e \<Rightarrow> Inl e | Inr ss \<Rightarrow> Inr (s # ss)))"

text \<open>
  \<open>String(v)\<close>: the descriptive string of a symbol (which ToString refuses), ToString of
  any other value.
\<close>

definition js_String :: "jsval \<Rightarrow> error + jstr" where
  "js_String v =
     (case v of
        VSym d \<Rightarrow> Inr (asc ''Symbol('' @ d @ asc '')'')
      | _ \<Rightarrow> to_String v)"

section \<open>The title normalizer (public endpoint)\<close>

text \<open>\<open>Array.from(new Set(xs))\<close>: a Set keeps the insertion order of first occurrences.\<close>

fun set_add_all :: "'a list \<Rightarrow> 'a list \<Rightarrow> 'a list" where
  "set_add_all acc [] = acc"
| "set_add_all acc (x # xs) =
     (if x \<in> set acc then set_add_all acc xs else set_add_all (acc @ [x]) xs)"

definition array_from_set :: "'a list \<Rightarrow> 'a list" where
  "array_from_set xs = set_add_all [] xs"

definition cut45 :: "jstr \<Rightarrow> jstr" where
  "cut45 t = (if length t > 45 then trim (take 45 t) else t)"

text \<open>The last step of the normalizer, common to every shape of the payload.\<close>

definition post_process :: "jstr list \<Rightarrow> jstr list" where
  "post_process titles =
     array_from_set (map cut45 (filter (\<lambda>t. length t > 0) (map trim titles)))"

text \<open>The callback mapped over the elements when \<open>titles\<close> is an array.\<close>

definition title_of_element :: "jsval \<Rightarrow> error + jstr" where
  "title_of_element s =
     (case s of
        VStr t \<Rightarrow> Inr (trim t)
      | _ \<Rightarrow>
        if truthy s \<and> typeof_object s then
          (let val = nc (nc (field s (asc ''title'')) (field s (asc ''text'')))
                        (field s (asc ''suggestion''))
           in case val of
                VStr t \<Rightarrow> Inr (trim t)
              | _ \<Rightarrow>
                (case find is_string (object_values s) of
                   Some (VStr t) \<Rightarrow> Inr (trim t)
                 | _ \<Rightarrow> bind (js_String s) (\<lambda>t. Inr (trim t))))
        else bind (js_String s) (\<lambda>t. Inr (trim t)))"

definition titles_source :: "jsval \<Rightarrow> jsval" where
  "titles_source json =
     (let obj = (if truthy json \<and> typeof_object json then json else VObj [])
      in nc (field obj (asc ''titles'')) (field obj (asc ''suggestions'')))"

text \<open>The value of \<open>titles\<close> before the common last step.\<close>

definition extract_titles :: "jsval \<Rightarrow> error + jstr list" where
  "extract_titles json =
     (case titles_source json of
        VStr s \<Rightarrow> Inr (filter (\<lambda>t. t \<noteq> []) (map trim (split_on 0x2C s)))
      | VArr xs \<Rightarrow>
          bind (mapM title_of_element xs) (\<lambda>ts. Inr (filter (\<lambda>t. t \<noteq> []) ts))
      | VObj kv \<Rightarrow>
          (let maybe = nc (nc (field (VObj kv) (asc ''title'')) (field (VObj kv) (asc ''text'')))
                          (field (VObj kv) (asc ''suggestion''))
           in case maybe of VStr t \<Rightarrow> Inr [trim t] | _ \<Rightarrow> Inr [])
      | _ \<Rightarrow> Inr [])"

definition normalizeTitlesFromJson :: "jsval \<Rightarrow> error + jstr list" where
  "normalizeTitlesFromJson json =
     bind (extract_titles json) (\<lambda>titles. Inr (post_process titles))"

section \<open>The title normalizer of \<open>src/unnamed/part_001\<close>\<close>

text \<open>
  \<open>x.trim()\<close> on an arbitrary value: the string method on a string; on any other value
  the property \<open>trim\<close> is looked up and called, which throws unless it is a function.
\<close>

definition call_trim :: "jsval \<Rightarrow> error + jsval" where
  "call_trim x =
     (case x of
        VStr t \<Rightarrow> Inr (VStr (trim t))
      | _ \<Rightarrow>
        if nullish x then Inl TypeError
        else (case field x (asc ''trim'') of
                VFun src None \<Rightarrow> Inl Thrown
              | VFun src (Some r) \<Rightarrow> Inr r
              | _ \<Rightarrow> Inl TypeError))"

text \<open>
  The callback mapped over the elements when \<open>titles\<close> is an array:
  \<open>typeof s === "string" ? s.trim() : (s?.title || s?.text || s?.suggestion || String(s)).trim()\<close>.
  \<open>String(s)\<close> is evaluated only when the three fields are falsy.
\<close>

definition title_of_element_part001 :: "jsval \<Rightarrow> error + jsval" where
  "title_of_element_part001 s =
     (case s of
        VStr t \<Rightarrow> Inr (VStr (trim t))
      | _ \<Rightarrow>
        (let a = or_else (or_else (opt_get s (asc ''title'')) (opt_get s (asc ''text'')))
                         (opt_get s (asc ''suggestion''))
         in if truthy a then call_trim a
            else bind (js_String s) (\<lambda>t. Inr (VStr (trim t)))))"

definition extract_titles_part001 :: "jsval \<Rightarrow> error + jsval list" where
  "extract_titles_part001 json =
     (let src = nc (opt_get json (asc ''titles'')) (opt_get json (asc ''suggestions''))
      in case src of
           VStr s \<Rightarrow> Inr (map VStr (filter (\<lambda>t. t \<noteq> []) (map trim (split_on 0x2C s))))
         | VArr xs \<Rightarrow> mapM title_of_element_part001 xs
         | VObj kv \<Rightarrow>
             (let maybe = or_else (or_else (field (VObj kv) (asc ''title''))
                                           (field (VObj kv) (asc ''text'')))
                                  (field (VObj kv) (asc ''suggestion''))
              in case maybe of VStr t \<Rightarrow> Inr [VStr (trim t)] | _ \<Rightarrow> Inr [])
         | _ \<Rightarrow> Inr [])"

text \<open>
  The last step: \<open>String(t).trim()\<close> on every element, \<open>filter(Boolean)\<close>, the cut at
  45 code units and the Set.
\<close>

definition normalizeTitlesFromJson_part001 :: "jsval \<Rightarrow> error + jstr list" where
  "normalizeTitlesFromJson_part001 json =
     bind (extract_titles_part001 json) (\<lambda>titles.
     bind (mapM js_String titles) (\<lambda>ts.
       Inr (array_from_set (map cut45 (filter (\<lambda>t. t \<noteq> []) (map trim ts))))))"

section \<open>Fence stripping and JSON decoding\<close>

definition lower_ascii :: "cu \<Rightarrow> cu" where
  "lower_ascii c = (if 0x41 \<le> c \<and> c \<le> 0x5A then c + 0x20 else c)"

definition fence :: jstr where
  "fence = [0x60, 0x60, 0x60]"

text \<open>The optional \<open>\n\<close> after a leading fence marker.\<close>

fun drop_newline :: "jstr \<Rightarrow> jstr" where
  "drop_newline [] = []"
| "drop_newline (c # cs) = (if c = 0xA then cs else c # cs)"

text \<open>
  \<open>s.replace(/^```json\n?/i, "")\<close>. The flag \<open>i\<close> without \<open>u\<close> compares the
  canonical (upper-case) forms of single code units, and no code unit outside ASCII is
  canonically equal to an ASCII letter, so exactly the ASCII letters of either case match.
\<close>

definition strip_json_marker :: "jstr \<Rightarrow> jstr" where
  "strip_json_marker s =
     (if take 3 s = fence \<and> map lower_ascii (take 4 (drop 3 s)) = asc ''json''
      then drop_newline (drop 7 s) else s)"

text \<open>\<open>s.replace(/^```\n?/i, "")\<close>.\<close>

definition strip_marker :: "jstr \<Rightarrow> jstr" where
  "strip_marker s = (if take 3 s = fence then drop_newline (drop 3 s) else s)"

text \<open>
  \<open>s.replace(/\n?```\s*$/i, "")\<close>: without the flag \<open>m\<close> the \<open>$\<close> is the end of the
  text, and the match replaced is the leftmost one, so the text is cut at the first
  position from which the rest is an optional newline, a fence and white space only.
\<close>

definition closing_at :: "jstr \<Rightarrow> bool" where
  "closing_at t \<longleftrightarrow> take 3 t = fence \<and> list_all is_ws (drop 3 t)"

definition closing_match :: "jstr \<Rightarrow> bool" where
  "closing_match t \<longleftrightarrow> (case t of [] \<Rightarrow> False | c # cs \<Rightarrow> (c = 0xA \<and> closing_at cs) \<or> closing_at t)"

fun strip_closing :: "jstr \<Rightarrow> jstr" where
  "strip_closing [] = []"
| "strip_closing (c # cs) = (if closing_match (c # cs) then [] else c # strip_closing cs)"

definition strip_text :: "jstr \<Rightarrow> jstr" where
  "strip_text s = strip_closing (strip_marker (strip_json_marker s))"

text \<open>
  \<open>v.replace(re, "")\<close> on an arbitrary value: the string method on a string; on any
  other value the property \<open>replace\<close> is looked up and called.
\<close>

definition call_replace :: "(jstr \<Rightarrow> jstr) \<Rightarrow> jsval \<Rightarrow> error + jsval" where
  "call_replace re v =
     (case v of
        VStr s \<Rightarrow> Inr (VStr (re s))
      | _ \<Rightarrow>
        if nullish v then Inl TypeError
        else (case field v (asc ''replace'') of
                VFun src None \<Rightarrow> Inl Thrown
              | VFun src (Some r) \<Rightarrow> Inr r
              | _ \<Rightarrow> Inl TypeError))"

definition stripCodeFences :: "jsval \<Rightarrow> error + jsval" where
  "stripCodeFences s =
     bind (call_replace strip_json_marker s) (\<lambda>a.
     bind (call_replace strip_marker a) (\<lambda>b.
       call_replace strip_closing b))"

text \<open>
  \<open>JSON.parse\<close> belongs to the platform and is a parameter \<open>parse\<close> of the model:
  \<open>None\<close> when it throws a SyntaxError, the decoded value otherwise. Its argument is
  converted with ToString first; a throw of either step is caught by \<open>tryParseJson\<close>.
\<close>

definition tryParseJson :: "(jstr \<Rightarrow> jsval option) \<Rightarrow> jsval \<Rightarrow> jsval" where
  "tryParseJson parse s =
     (case to_String s of
        Inl e \<Rightarrow> VNull
      | Inr t \<Rightarrow> (case parse t of None \<Rightarrow> VNull | Some v \<Rightarrow> v))"

text \<open>\<open>tryParseJson(stripCodeFences(rawText)) ?? tryParseJson(rawText)\<close>.\<close>

definition parse_payload :: "(jstr \<Rightarrow> jsval option) \<Rightarrow> jsval \<Rightarrow> error + jsval" where
  "parse_payload parse rawText =
     bind (stripCodeFences rawText) (\<lambda>stripped.
       Inr (nc (tryParseJson parse stripped) (tryParseJson parse rawText)))"

section \<open>JSON.stringify\<close>

text \<open>QuoteJSONString: the escapes of JSON, and \<open>\uXXXX\<close> for a lone surrogate.\<close>

definition hex_digit :: "nat \<Rightarrow> cu" where
  "hex_digit n = (if n < 10 then of_nat (48 + n) else of_nat (87 + n))"

definition unicode_escape :: "cu \<Rightarrow> jstr" where
  "unicode_escape c =
     (let n = unat c
      in [0x5C, 0x75, hex_digit (n div 4096), hex_digit (n div 256 mod 16),
          hex_digit (n div 16 mod 16), hex_digit (n mod 16)])"

definition is_lead :: "cu \<Rightarrow> bool" where
  "is_lead c \<longleftrightarrow> 0xD800 \<le> c \<and> c \<le> 0xDBFF"

definition is_trail :: "cu \<Rightarrow> bool" where
  "is_trail c \<longleftrightarrow> 0xDC00 \<le> c \<and> c \<le> 0xDFFF"

fun quote_units :: "jstr \<Rightarrow> jstr" where
  "quote_units [] = []"
| "quote_units [c] =
     (if c = 0x8 then [0x5C, 0x62]
      else if c = 0x9 then [0x5C, 0x74]
      else if c = 0xA then [0x5C, 0x6E]
      else if c = 0xC then [0x5C, 0x66]
      else if c = 0xD then [0x5C, 0x72]
      else if c = 0x22 then [0x5C, 0x22]
      else if c = 0x5C then [0x5C, 0x5C]
      else if c < 0x20 \<or> is_lead c \<or> is_trail c then unicode_escape c
      else [c])"
| "quote_units (c # d # ds) =
     (if is_lead c \<and> is_trail d then c # d # quote_units ds
      else quote_units [c] @ quote_units (d # ds))"

definition QuoteJSONString :: "jstr \<Rightarrow> jstr" where
  "QuoteJSONString s = [0x22] @ quote_units s @ [0x22]"

text \<open>
  SerializeJSONProperty: a callable \<open>toJSON\<close> of an object is called and its result
  serialized in the object's place; \<open>undefined\<close> and functions have no serialization
  (\<open>None\<close>), which drops a member of an object and gives \<open>null\<close> in an array; so have
  symbols; a bigint throws; a number that is not finite gives \<open>null\<close>. The value is a
  tree, so there is no cycle to detect.
\<close>

function (sequential) serialize_property :: "jsval \<Rightarrow> error + jstr option"
  and serialize_value :: "jsval \<Rightarrow> error + jstr option"
  and serialize_elements :: "jsval list \<Rightarrow> error + jstr list"
  and serialize_members :: "(jstr \<times> jsval) list \<Rightarrow> error + jstr list"
where
  "serialize_property (VObj kv) =
     (case map_of kv (asc ''toJSON'') of
        Some (VFun src None) \<Rightarrow> Inl Thrown
      | Some (VFun src (Some r)) \<Rightarrow> serialize_value r
      | _ \<Rightarrow> serialize_value (VObj kv))"
| "serialize_property v = serialize_value v"
| "serialize_value VUndef = Inr None"
| "serialize_value VNull = Inr (Some (asc ''null''))"
| "serialize_value (VBool b) = Inr (Some (if b then asc ''true'' else asc ''false''))"
| "serialize_value (VNum n) = Inr (Some (if num_finite n then num_text n else asc ''null''))"
| "serialize_value (VBigInt z t) = Inl TypeError"
| "serialize_value (VSym d) = Inr None"
| "serialize_value (VStr s) = Inr (Some (QuoteJSONString s))"
| "serialize_value (VFun src out) = Inr None"
| "serialize_value (VArr xs) =
     (case serialize_elements xs of
        Inl e \<Rightarrow> Inl e
      | Inr ss \<Rightarrow> Inr (Some ([0x5B] @ join [0x2C] ss @ [0x5D])))"
| "serialize_value (VObj kv) =
     (case serialize_members kv of
        Inl e \<Rightarrow> Inl e
      | Inr ms \<Rightarrow> Inr (Some ([0x7B] @ join [0x2C] ms @ [0x7D])))"
| "serialize_elements [] = Inr []"
| "serialize_elements (x # xs) =
     (case serialize_property x of
        Inl e \<Rightarrow> Inl e
      | Inr s \<Rightarrow>
         (case serialize_elements xs of
            Inl e \<Rightarrow> Inl e
          | Inr ss \<Rightarrow> Inr ((case s of None \<Rightarrow> asc ''null'' | Some t \<Rightarrow> t) # ss)))"
| "serialize_members [] = Inr []"
| "serialize_members ((k, x) # kv) =
     (case serialize_property x of
        Inl e \<Rightarrow> Inl e
      | Inr s \<Rightarrow>
         (case serialize_members kv of
            Inl e \<Rightarrow> Inl e
          | Inr ms \<Rightarrow>
              Inr ((case s of None \<Rightarrow> [] | Some t \<Rightarrow> [QuoteJSONString k @ [0x3A] @ t]) @ ms)))"
  by pat_completeness auto

lemma size_toJSON_result:
  "map_of kv k = Some (VFun src (Some r)) \<Longrightarrow> size r < size_list (size_prod (\<lambda>x. 0) size) kv"
  by (induction kv) (auto split: if_splits)

termination serialize_property
  by (relation "measure (\<lambda>a. case a of
          Inl (Inl v) \<Rightarrow> 2 * size v + 1
        | Inl (Inr v) \<Rightarrow> 2 * size v
        | Inr (Inl xs) \<Rightarrow> 2 * size_list size xs + 1
        | Inr (Inr kv) \<Rightarrow> 2 * size_list (size_prod (\<lambda>x. 0) size) kv + 1)")
     (auto dest: size_toJSON_result)

text \<open>\<open>JSON.stringify(v)\<close>: a string, or \<open>undefined\<close> when \<open>v\<close> has no serialization.\<close>

definition JSON_stringify :: "jsval \<Rightarrow> error + jsval" where
  "JSON_stringify v =
     (case serialize_property v of
        Inl e \<Rightarrow> Inl e
      | Inr None \<Rightarrow> Inr VUndef
      | Inr (Some s) \<Rightarrow> Inr (VStr s))"

section \<open>The text extractors\<close>

text \<open>\<open>await f()\<close> for a value \<open>f\<close> read from a property.\<close>

definition call_awaited :: "jsval \<Rightarrow> error + jsval" where
  "call_awaited f =
     (case f of
        VFun src None \<Rightarrow> Inl Thrown
      | VFun src (Some r) \<Rightarrow> Inr r
      | _ \<Rightarrow> Inl TypeError)"

subsection \<open>Public endpoint\<close>

text \<open>
  \<open>parts.map((p) => (p && typeof p === "object" && typeof p["text"] === "string"
  ? String(p["text"]) : "")).filter(Boolean).join("\n")\<close>.
\<close>

definition part_text :: "jsval \<Rightarrow> jstr" where
  "part_text p =
     (if truthy p \<and> typeof_object p
      then (case field p (asc ''text'') of VStr t \<Rightarrow> t | _ \<Rightarrow> [])
      else [])"

definition joined_parts :: "jsval \<Rightarrow> jstr" where
  "joined_parts parts =
     (case parts of
        VArr ps \<Rightarrow> join [0xA] (filter (\<lambda>t. t \<noteq> []) (map part_text ps))
      | _ \<Rightarrow> [])"

text \<open>
  The block entered when \<open>candidates\<close> is a non-empty array, for its first element:
  \<open>Some\<close> text when the block returns, \<open>None\<close> when it falls through.
\<close>

definition first_candidate_text :: "jsval \<Rightarrow> error + jstr option" where
  "first_candidate_text first =
     (let content = opt_get first (asc ''content'');
          parts = opt_get content (asc ''parts'');
          joined = joined_parts parts
      in if joined \<noteq> [] then Inr (Some joined)
         else
           bind (if truthy content \<and> is_string (field content (asc ''text''))
                 then Inr (text_of (field content (asc ''text'')))
                 else bind (get first (asc ''text'')) (\<lambda>ft.
                        Inr (if is_string ft then text_of ft else [])))
             (\<lambda>textField. Inr (if trim textField \<noteq> [] then Some textField else None)))"

text \<open>The body of the \<open>try\<close> block.\<close>

definition extractText_try :: "jsval \<Rightarrow> error + jsval" where
  "extractText_try resp =
     (let r = resp;
          hasTextFn = (truthy r \<and> typeof_object r \<and> is_function (field r (asc ''text'')))
      in if hasTextFn then call_awaited (field r (asc ''text''))
         else
          (let responseObj = (if truthy r \<and> typeof_object r then field r (asc ''response'')
                              else VUndef)
           in if truthy responseObj \<and> is_function (field responseObj (asc ''text''))
              then call_awaited (field responseObj (asc ''text''))
              else
                bind (get r (asc ''outputText'')) (\<lambda>outputText.
                  if is_string outputText then Inr outputText
                  else
                   (let candidates = or_else (opt_get (opt_get r (asc ''response'')) (asc ''candidates''))
                                             (opt_get r (asc ''candidates''))
                    in bind (case candidates of
                               VArr (first # rest) \<Rightarrow> first_candidate_text first
                             | _ \<Rightarrow> Inr None)
                        (\<lambda>found. case found of
                           Some t \<Rightarrow> Inr (VStr t)
                         | None \<Rightarrow>
                            (let contentObj = (if truthy r \<and> typeof_object r
                                               then field r (asc ''content'') else VUndef);
                                 parts2 = opt_get contentObj (asc ''parts'');
                                 joined = joined_parts parts2
                             in if joined \<noteq> [] then Inr (VStr joined)
                                else if is_string resp then Inr resp
                                else JSON_stringify resp))))))"

text \<open>
  \<open>extractText\<close> of the public route: what the \<open>try\<close> block returns; when it throws,
  \<open>String(resp)\<close>, evaluated in the \<open>catch\<close> block and so not itself guarded.
\<close>

definition extractText :: "jsval \<Rightarrow> error + jsval" where
  "extractText resp =
     (case extractText_try resp of
        Inr v \<Rightarrow> Inr v
      | Inl e \<Rightarrow> (case js_String resp of Inl e' \<Rightarrow> Inl e' | Inr s \<Rightarrow> Inr (VStr s)))"

subsection \<open>Internal endpoint\<close>

text \<open>\<open>parts.map((p) => p?.text || "").filter(Boolean).join("\n")\<close>: \<open>join\<close> converts the
  elements that are left with ToString.\<close>

definition joined_parts_suggest :: "jsval \<Rightarrow> error + jstr" where
  "joined_parts_suggest parts =
     (case parts of
        VArr ps \<Rightarrow>
          bind (mapM to_String
                  (filter truthy (map (\<lambda>p. or_else (opt_get p (asc ''text'')) (VStr [])) ps)))
            (\<lambda>ss. Inr (join [0xA] ss))
      | _ \<Rightarrow> Inr [])"

definition first_candidate_text_suggest :: "jsval \<Rightarrow> error + jsval option" where
  "first_candidate_text_suggest first =
     (let parts = opt_get (opt_get first (asc ''content'')) (asc ''parts'')
      in bind (joined_parts_suggest parts) (\<lambda>joined.
           if joined \<noteq> [] then Inr (Some (VStr joined))
           else
            (let textField = or_else (opt_get (opt_get first (asc ''content'')) (asc ''text''))
                                     (opt_get first (asc ''text''))
             in case textField of
                  VStr t \<Rightarrow> Inr (if trim t \<noteq> [] then Some textField else None)
                | _ \<Rightarrow> Inr None)))"

definition extractText_suggest_try :: "jsval \<Rightarrow> error + jsval" where
  "extractText_suggest_try resp =
     (if truthy resp \<and> is_function (field resp (asc ''text''))
      then call_awaited (field resp (asc ''text''))
      else if truthy (opt_get resp (asc ''response'')) \<and>
              is_function (field (opt_get resp (asc ''response'')) (asc ''text''))
      then call_awaited (field (opt_get resp (asc ''response'')) (asc ''text''))
      else if is_string (opt_get resp (asc ''outputText''))
      then Inr (opt_get resp (asc ''outputText''))
      else
       (let candidates = or_else (opt_get (opt_get resp (asc ''response'')) (asc ''candidates''))
                                 (opt_get resp (asc ''candidates''))
        in bind (case candidates of
                   VArr (first # rest) \<Rightarrow> first_candidate_text_suggest first
                 | _ \<Rightarrow> Inr None)
            (\<lambda>found. case found of
               Some t \<Rightarrow> Inr t
             | None \<Rightarrow>
                (let parts = opt_get (opt_get resp (asc ''content'')) (asc ''parts'')
                 in bind (joined_parts_suggest parts) (\<lambda>joined.
                      if joined \<noteq> [] then Inr (VStr joined)
                      else if is_string resp then Inr resp
                      else JSON_stringify resp)))))"

definition extractText_suggest :: "jsval \<Rightarrow> error + jsval" where
  "extractText_suggest resp =
     (case extractText_suggest_try resp of
        Inr v \<Rightarrow> Inr v
      | Inl e \<Rightarrow> (case js_String resp of Inl e' \<Rightarrow> Inl e' | Inr s \<Rightarrow> Inr (VStr s)))"

section \<open>The endpoints\<close>

text \<open>
  The body of a response: \<open>{error}\<close> with a fixed message, \<open>{error}\<close> with the message of
  a caught exception, \<open>{error, raw}\<close>, \<open>{titles, meta: {count, maxLength, model}}\<close>, a
  value passed to \<open>NextResponse.json\<close> as it is, and a body passed to \<open>new NextResponse\<close>.
\<close>

datatype body =
    ErrorBody jstr
  | ExceptionBody error
  | ErrorRawBody jstr jsval
  | TitlesBody "jstr list" nat nat jstr
  | JsonBody jsval
  | TextBody jsval

record response =
  status :: nat
  payload :: body
  headers :: "(jstr \<times> jstr) list"

definition corsHeaders :: "(jstr \<times> jstr) list" where
  "corsHeaders =
     [(asc ''Access-Control-Allow-Origin'', asc ''*''),
      (asc ''Access-Control-Allow-Methods'', asc ''POST, OPTIONS''),
      (asc ''Access-Control-Allow-Headers'', asc ''Content-Type, Authorization'')]"

subsection \<open>The user prompt\<close>

text \<open>\<open>if (x) lines.push(`label${x}`)\<close>: the template converts \<open>x\<close> with ToString.\<close>

definition field_line :: "jstr \<Rightarrow> jsval \<Rightarrow> error + jstr list" where
  "field_line label x =
     (if truthy x then bind (to_String x) (\<lambda>t. Inr [label @ t]) else Inr [])"

text \<open>
  \<open>if (input.keywords?.length) lines.push(`Keywords: ${input.keywords.join(", ")}`)\<close>.
  A non-empty string has a length and no \<open>join\<close>; an object may carry both as own
  properties. A request body is JSON and holds no function; the arity that a function
  has as its \<open>length\<close> is not part of the model and is taken as 0.
\<close>

definition keywords_line :: "jsval \<Rightarrow> error + jstr list" where
  "keywords_line k =
     (case k of
        VArr xs \<Rightarrow>
          if xs = [] then Inr []
          else bind (elems_to_String xs) (\<lambda>ss. Inr [asc ''Keywords: '' @ join (asc '', '') ss])
      | VStr s \<Rightarrow> if s = [] then Inr [] else Inl TypeError
      | VObj kv \<Rightarrow>
          if truthy (field k (asc ''length''))
          then bind (call_awaited (field k (asc ''join''))) (\<lambda>r.
               bind (to_String r) (\<lambda>t. Inr [asc ''Keywords: '' @ t]))
          else Inr []
      | _ \<Rightarrow> Inr [])"

definition buildUserPrompt :: "jsval \<Rightarrow> jsval \<Rightarrow> jsval \<Rightarrow> jsval \<Rightarrow> error + jstr" where
  "buildUserPrompt description keywords niche language =
     bind (field_line (asc ''Description: '') description) (\<lambda>l1.
     bind (keywords_line keywords) (\<lambda>l2.
     bind (field_line (asc ''Niche: '') niche) (\<lambda>l3.
     bind (field_line (asc ''Language: '') language) (\<lambda>l4.
       Inr (join [0xA]
              (l1 @ l2 @ l3 @ l4 @
               [asc ''Respond in JSON only, no extra text.'',
                asc ''All titles must be <= 45 characters each.'']))))))"

subsection \<open>The request fields\<close>

text \<open>
  \<open>req_json\<close> is the outcome of \<open>req.json()\<close>: \<open>None\<close> when the promise rejects (the
  body is not valid JSON), the decoded body otherwise. Both routes replace a rejection
  by \<open>{}\<close>. The fields are returned as (description, keywords, niche, language).
\<close>

definition string_field :: "jsval \<Rightarrow> jstr \<Rightarrow> jsval" where
  "string_field raw k = (if is_string (field raw k) then field raw k else VUndef)"

definition request_fields :: "jsval option \<Rightarrow> jsval \<times> jsval \<times> jsval \<times> jsval" where
  "request_fields req_json =
     (let body = (case req_json of None \<Rightarrow> VObj [] | Some b \<Rightarrow> b);
          raw = (if truthy body \<and> typeof_object body then body else VObj [])
      in (string_field raw (asc ''description''),
          (case field raw (asc ''keywords'') of
             VArr ks \<Rightarrow> VArr (filter is_string ks)
           | _ \<Rightarrow> VUndef),
          string_field raw (asc ''niche''),
          string_field raw (asc ''language'')))"

definition request_fields_suggest :: "jsval option \<Rightarrow> jsval \<times> jsval \<times> jsval \<times> jsval" where
  "request_fields_suggest req_json =
     (let body = (case req_json of None \<Rightarrow> VObj [] | Some b \<Rightarrow> b);
          src = (if truthy body then body else VObj [])
      in (field src (asc ''description''), field src (asc ''keywords''),
          field src (asc ''niche''), field src (asc ''language'')))"

subsection \<open>After the model call\<close>

definition exception_response :: "(jstr \<times> jstr) list \<Rightarrow> error \<Rightarrow> response" where
  "exception_response hs e = \<lparr>status = 500, payload = ExceptionBody e, headers = hs\<rparr>"

text \<open>The public route from the call of the normalizer on.\<close>

definition respond_normalized :: "jsval \<Rightarrow> response" where
  "respond_normalized parsed =
     (case normalizeTitlesFromJson parsed of
        Inl e \<Rightarrow> exception_response corsHeaders e
      | Inr titles \<Rightarrow>
          if titles = []
          then \<lparr>status = 502,
                payload = ErrorRawBody (asc ''No titles produced'') parsed,
                headers = corsHeaders\<rparr>
          else \<lparr>status = 200,
                payload = TitlesBody titles (length titles) 45 (asc ''gemini-2.5-flash''),
                headers = corsHeaders\<rparr>)"

text \<open>The public route from \<open>if (!parsed)\<close> on.\<close>

definition respond_titles :: "jsval \<Rightarrow> jsval \<Rightarrow> response" where
  "respond_titles rawText parsed =
     (if \<not> truthy parsed
      then \<lparr>status = 502,
            payload = ErrorRawBody (asc ''Model returned non-JSON output'') rawText,
            headers = corsHeaders\<rparr>
      else respond_normalized parsed)"

text \<open>The public route from the response of the model on.\<close>

definition respond_public :: "(jstr \<Rightarrow> jsval option) \<Rightarrow> jsval \<Rightarrow> response" where
  "respond_public parse resp =
     (case extractText resp of
        Inl e \<Rightarrow> exception_response corsHeaders e
      | Inr rawText \<Rightarrow>
         (case parse_payload parse rawText of
            Inl e \<Rightarrow> exception_response corsHeaders e
          | Inr parsed \<Rightarrow> respond_titles rawText parsed))"

text \<open>The internal route from the response of the model on.\<close>

definition respond_suggest :: "(jstr \<Rightarrow> jsval option) \<Rightarrow> jsval \<Rightarrow> response" where
  "respond_suggest parse resp =
     (case extractText_suggest resp of
        Inl e \<Rightarrow> exception_response [] e
      | Inr text \<Rightarrow>
         (case parse_payload parse text of
            Inl e \<Rightarrow> exception_response [] e
          | Inr parsed \<Rightarrow>
              if parsed \<noteq> VNull
              then \<lparr>status = 200, payload = JsonBody parsed, headers = []\<rparr>
              else \<lparr>status = 200, payload = TextBody text,
                    headers = [(asc ''Content-Type'', asc ''text/plain; charset=utf-8'')]\<rparr>))"

subsection \<open>The handlers\<close>

text \<open>
  \<open>apiKey\<close> is \<open>process.env.GEMINI_API_KEY\<close> (\<open>None\<close> when unset); \<open>gen\<close> is the
  generation service behind \<open>ai.models.generateContent\<close>, called with the key and the
  user prompt (the other arguments are constants), \<open>None\<close> when the call throws. A handler
  returns its response and the list of prompts it sent to the service.
\<close>

definition missing_key_response :: "(jstr \<times> jstr) list \<Rightarrow> response" where
  "missing_key_response hs =
     \<lparr>status = 500,
      payload = ErrorBody (asc ''Missing GEMINI_API_KEY environment variable''),
      headers = hs\<rparr>"

definition call_model ::
  "(jstr \<times> jstr) list \<Rightarrow> (jsval \<Rightarrow> response) \<Rightarrow> jstr option \<Rightarrow> (jstr \<Rightarrow> jstr \<Rightarrow> jsval option) \<Rightarrow>
   jsval \<times> jsval \<times> jsval \<times> jsval \<Rightarrow> response \<times> jstr list" where
  "call_model hs respond apiKey gen flds =
     (case flds of (description, keywords, niche, language) \<Rightarrow>
        (case apiKey of
           None \<Rightarrow> (missing_key_response hs, [])
         | Some key \<Rightarrow>
            if key = [] then (missing_key_response hs, [])
            else
              (case buildUserPrompt description keywords niche language of
                 Inl e \<Rightarrow> (exception_response hs e, [])
               | Inr prompt \<Rightarrow>
                  (case gen key prompt of
                     None \<Rightarrow> (exception_response hs Thrown, [prompt])
                   | Some resp \<Rightarrow> (respond resp, [prompt])))))"

text \<open>\<open>POST\<close> of \<open>src/app/api/public/titles/route.ts\<close>.\<close>

definition POST :: "jstr option \<Rightarrow> (jstr \<Rightarrow> jstr \<Rightarrow> jsval option) \<Rightarrow> (jstr \<Rightarrow> jsval option) \<Rightarrow>
    jsval option \<Rightarrow> response \<times> jstr list" where
  "POST apiKey gen parse req_json =
     call_model corsHeaders (respond_public parse) apiKey gen (request_fields req_json)"

text \<open>\<open>POST\<close> of \<open>src/app/api/suggest/route.ts\<close>.\<close>

definition POST_suggest :: "jstr option \<Rightarrow> (jstr \<Rightarrow> jstr \<Rightarrow> jsval option) \<Rightarrow> (jstr \<Rightarrow> jsval option) \<Rightarrow>
    jsval option \<Rightarrow> response \<times> jstr list" where
  "POST_suggest apiKey gen parse req_json =
     call_model [] (respond_suggest parse) apiKey gen (request_fields_suggest req_json)"

section \<open>Vocabulary of the properties\<close>

text \<open>A string has no leading and no trailing white space.\<close>

fun no_outer_ws :: "jstr \<Rightarrow> bool" where
  "no_outer_ws [] = True"
| "no_outer_ws (c # cs) = (\<not> is_ws c \<and> \<not> is_ws (last (c # cs)))"

text \<open>The position of the first occurrence of an element (the length, when there is none).\<close>

definition first_index :: "'a list \<Rightarrow> 'a \<Rightarrow> nat" where
  "first_index xs x = length (takeWhile (\<lambda>y. y \<noteq> x) xs)"

text \<open>The titles just before \<open>Array.from(new Set(...))\<close> removes the duplicates.\<close>

definition cleaned :: "jstr list \<Rightarrow> jstr list" where
  "cleaned titles = map cut45 (filter (\<lambda>t. length t > 0) (map trim titles))"

text \<open>The segments of a comma-separated string: split, trimmed, the empty ones dropped.\<close>

definition comma_segments :: "jstr \<Rightarrow> jstr list" where
  "comma_segments s = filter (\<lambda>t. t \<noteq> []) (map trim (split_on 0x2C s))"

text \<open>
  The payload shapes on which the two normalizers are compared: an object whose first
  field among \<open>title\<close>, \<open>text\<close>, \<open>suggestion\<close> that is not null or undefined is a non-empty
  string; an array element that is such an object or is no object at all; a \<open>titles\<close>
  value that is an array of such elements, such an object, or no array and no object.
\<close>

fun title_like :: "jsval \<Rightarrow> bool" where
  "title_like (VObj kv) =
     (case nc (nc (field (VObj kv) (asc ''title'')) (field (VObj kv) (asc ''text'')))
              (field (VObj kv) (asc ''suggestion'')) of
        VStr t \<Rightarrow> t \<noteq> []
      | _ \<Rightarrow> False)"
| "title_like v = False"

fun simple_element :: "jsval \<Rightarrow> bool" where
  "simple_element (VArr xs) = False"
| "simple_element (VObj kv) = title_like (VObj kv)"
| "simple_element v = True"

fun simple_source :: "jsval \<Rightarrow> bool" where
  "simple_source (VArr xs) = list_all simple_element xs"
| "simple_source (VObj kv) = title_like (VObj kv)"
| "simple_source v = True"

text \<open>
  A decoder that agrees with \<open>JSON.parse\<close> on the text \<open>null\<close> and rejects every other
  text: it stands for \<open>JSON.parse\<close> where only the text \<open>null\<close> is decoded.
\<close>

definition parse_null_only :: "jstr \<Rightarrow> jsval option" where
  "parse_null_only s = (if s = asc ''null'' then Some VNull else None)"

text \<open>A decoder that rejects every text: it stands for \<open>JSON.parse\<close> on prose.\<close>

definition parse_nothing :: "jstr \<Rightarrow> jsval option" where
  "parse_nothing s = None"

text \<open>A request body that is a JSON object.\<close>

fun is_plain_object :: "jsval \<Rightarrow> bool" where
  "is_plain_object (VObj kv) = True"
| "is_plain_object v = False"

text \<open>\<open>typeof v === "symbol"\<close>.\<close>

fun is_symbol :: "jsval \<Rightarrow> bool" where
  "is_symbol (VSym d) = True"
| "is_symbol v = False"

text \<open>
  The outcome of calling an accessor is a string, or the call throws (and the \<open>catch\<close>
  block takes over).
\<close>

fun yields_string :: "jsval option \<Rightarrow> bool" where
  "yields_string None = True"
| "yields_string (Some r) = is_string r"

text \<open>
  The outcome of calling \<open>toJSON\<close> has a serialization: it is not \<open>undefined\<close>, a
  function or a symbol (or the call throws).
\<close>

fun yields_serializable :: "jsval option \<Rightarrow> bool" where
  "yields_serializable None = True"
| "yields_serializable (Some r) = (r \<noteq> VUndef \<and> \<not> is_function r \<and> \<not> is_symbol r)"

text \<open>
  A response that \<open>JSON.stringify\<close> does not turn into \<open>undefined\<close>, \<open>undefined\<close> itself
  apart: it is no function and no symbol, and its \<open>toJSON\<close>, when it is a function,
  yields a value that has a serialization.
\<close>

definition stringifiable :: "jsval \<Rightarrow> bool" where
  "stringifiable resp \<longleftrightarrow>
     \<not> is_function resp \<and> \<not> is_symbol resp \<and>
     (case field resp (asc ''toJSON'') of
        VFun src out \<Rightarrow> yields_serializable out
      | _ \<Rightarrow> True)"

text \<open>
  The response is no function and no symbol, and the accessor that the extractor relies
  on behaves: \<open>text\<close>, when it is a function, yields a string; otherwise
  \<open>response.text\<close>, when it is a function, yields a string; when neither is a
  function, \<open>toJSON\<close>, if it is a function, yields a value that has a serialization.
\<close>

definition accessors_yield_strings :: "jsval \<Rightarrow> bool" where
  "accessors_yield_strings resp \<longleftrightarrow>
     \<not> is_function resp \<and> \<not> is_symbol resp \<and>
     (case field resp (asc ''text'') of
        VFun src out \<Rightarrow> yields_string out
      | _ \<Rightarrow>
        (case field (field resp (asc ''response'')) (asc ''text'') of
           VFun src out \<Rightarrow> yields_string out
         | _ \<Rightarrow>
           (case field resp (asc ''toJSON'') of
              VFun src out \<Rightarrow> yields_serializable out
            | _ \<Rightarrow> True)))"

section \<open>Properties of the title normalizer\<close>

lemma post_process_cleaned: "post_process titles = array_from_set (cleaned titles)"
  by (simp add: post_process_def cleaned_def)

lemma trim_length_le: "length (trim s) \<le> length s"
  unfolding trim_def
  by (metis length_rev length_dropWhile_le le_trans)

lemma dropWhile_hd_id: "xs \<noteq> [] \<Longrightarrow> \<not> P (hd xs) \<Longrightarrow> dropWhile P xs = xs"
  by (cases xs) auto

lemma trim_id: "no_outer_ws t \<Longrightarrow> trim t = t"
proof (cases t)
  case Nil
  then show ?thesis by (simp add: trim_def)
next
  case (Cons c cs)
  assume "no_outer_ws t"
  with Cons have h: "\<not> is_ws c" and l: "\<not> is_ws (last t)" by simp_all
  from Cons h have 1: "dropWhile is_ws t = t" by simp
  from Cons have "rev t \<noteq> []" by simp
  moreover from l have "\<not> is_ws (hd (rev t))" by (metis hd_rev)
  ultimately have 2: "dropWhile is_ws (rev t) = rev t" by (rule dropWhile_hd_id)
  show ?thesis by (simp add: trim_def 1 2)
qed

lemma no_outer_ws_iff: "no_outer_ws t \<longleftrightarrow> (t = [] \<or> (\<not> is_ws (hd t) \<and> \<not> is_ws (last t)))"
  by (cases t) auto

lemma trim_no_outer_ws: "no_outer_ws (trim s)"
proof -
  define ys where "ys = dropWhile is_ws s"
  define zs where "zs = dropWhile is_ws (rev ys)"
  have t: "trim s = rev zs" by (simp add: trim_def ys_def zs_def)
  show ?thesis
  proof (cases "zs = []")
    case True
    then show ?thesis by (simp add: t)
  next
    case False
    then have hz: "\<not> is_ws (hd zs)" unfolding zs_def by (rule hd_dropWhile)
    from False have ysne: "ys \<noteq> []" by (auto simp: zs_def)
    then have hy: "\<not> is_ws (hd ys)" unfolding ys_def by (rule hd_dropWhile)
    obtain pre where "rev ys = pre @ zs"
      unfolding zs_def by (metis takeWhile_dropWhile_id)
    with False have "last zs = last (rev ys)" by simp
    also have "\<dots> = hd ys" using ysne by (simp add: last_rev)
    finally have lz: "\<not> is_ws (last zs)" using hy by simp
    from False hz lz show ?thesis
      by (simp add: t no_outer_ws_iff hd_rev last_rev)
  qed
qed

lemma trim_trim: "trim (trim s) = trim s"
  by (rule trim_id) (rule trim_no_outer_ws)

lemma trim_take_nonempty:
  assumes "t \<noteq> []" "no_outer_ws t" "0 < n"
  shows "trim (take n t) \<noteq> []"
proof -
  from assms obtain c cs where t: "t = c # cs" and c: "\<not> is_ws c" by (cases t) auto
  from assms(3) obtain m where n: "n = Suc m" by (cases n) auto
  have 1: "dropWhile is_ws (take n t) = c # take m cs" using t c n by simp
  have "c \<in> set (rev (c # take m cs))" by simp
  with c have "dropWhile is_ws (rev (c # take m cs)) \<noteq> []"
    by (metis dropWhile_eq_Nil_conv)
  then show ?thesis by (simp add: trim_def 1)
qed

lemma cut45_props:
  assumes "t \<noteq> []" "no_outer_ws t"
  shows "cut45 t \<noteq> [] \<and> no_outer_ws (cut45 t) \<and> length (cut45 t) \<le> 45"
proof (cases "length t > 45")
  case True
  have "length (trim (take 45 t)) \<le> length (take 45 t)" by (rule trim_length_le)
  then have "length (trim (take 45 t)) \<le> 45" by simp
  with True assms show ?thesis
    by (simp add: cut45_def trim_no_outer_ws trim_take_nonempty)
next
  case False
  with assms show ?thesis by (simp add: cut45_def)
qed

lemma cleaned_props:
  "t \<in> set (cleaned titles) \<Longrightarrow> t \<noteq> [] \<and> no_outer_ws t \<and> length t \<le> 45"
  unfolding cleaned_def
  by (auto simp: trim_no_outer_ws dest!: cut45_props[rotated, OF trim_no_outer_ws])

lemma set_add_all_set: "set (set_add_all acc xs) = set acc \<union> set xs"
  by (induction xs arbitrary: acc) auto

lemma set_add_all_distinct: "distinct acc \<Longrightarrow> distinct (set_add_all acc xs)"
  by (induction xs arbitrary: acc) auto

lemma set_add_all_id: "distinct (acc @ xs) \<Longrightarrow> set_add_all acc xs = acc @ xs"
  by (induction xs arbitrary: acc) auto

lemma first_index_append:
  "first_index (xs @ ys) e = (if e \<in> set xs then first_index xs e else length xs + first_index ys e)"
  by (induction xs) (auto simp: first_index_def)

lemma first_index_Cons:
  "first_index (x # xs) e = (if e = x then 0 else Suc (first_index xs e))"
  by (auto simp: first_index_def)

lemma first_index_less: "e \<in> set xs \<Longrightarrow> first_index xs e < length xs"
  by (induction xs) (auto simp: first_index_def)

lemma set_add_all_order:
  "sorted_wrt (<) (map (first_index acc) acc) \<Longrightarrow>
   sorted_wrt (<) (map (first_index (acc @ xs)) (set_add_all acc xs))"
proof (induction xs arbitrary: acc)
  case Nil
  then show ?case by simp
next
  case (Cons x xs)
  show ?case
  proof (cases "x \<in> set acc")
    case True
    let ?f = "first_index (acc @ xs)" and ?g = "first_index (acc @ x # xs)"
    let ?L = "set_add_all acc xs"
    have s: "sorted_wrt (<) (map ?f ?L)" using Cons by blast
    have mono: "?g a < ?g b" if "a \<in> set ?L" "b \<in> set ?L" "?f a < ?f b" for a b
      using that True
      by (auto simp: first_index_append first_index_Cons set_add_all_set
               dest: first_index_less split: if_splits)
    have "sorted_wrt (\<lambda>a b. ?f a < ?f b) ?L" using s by (simp add: sorted_wrt_map)
    then have "sorted_wrt (\<lambda>a b. ?g a < ?g b) ?L"
      by (rule sorted_wrt_mono_rel[rotated]) (use mono in blast)
    with True show ?thesis by (simp add: sorted_wrt_map)
  next
    case False
    have "sorted_wrt (<) (map (first_index (acc @ [x])) (acc @ [x]))"
      using Cons.prems False
      by (auto simp: sorted_wrt_append first_index_append first_index_Cons sorted_wrt_map
                     first_index_less
               intro!: sorted_wrt_mono_rel[of acc "\<lambda>a b. first_index acc a < first_index acc b"])
    from Cons.IH[OF this] False show ?thesis by simp
  qed
qed

lemma array_from_set_order:
  "sorted_wrt (<) (map (first_index xs) (array_from_set xs))"
  using set_add_all_order[of "[]" xs] by (simp add: array_from_set_def)

lemma bind_Inr: "bind m f = Inr y \<longleftrightarrow> (\<exists>x. m = Inr x \<and> f x = Inr y)"
  by (cases m) (auto simp: bind_def)

lemma post_process_props:
  "(\<forall>t \<in> set (post_process src). t \<noteq> [] \<and> no_outer_ws t \<and> length t \<le> 45) \<and>
   distinct (post_process src)"
  by (auto simp: post_process_cleaned array_from_set_def set_add_all_set set_add_all_distinct
           dest: cleaned_props)

lemma cleaned_id:
  assumes "\<forall>t \<in> set L. t \<noteq> [] \<and> no_outer_ws t \<and> length t \<le> 45"
  shows "cleaned L = L"
proof -
  have 1: "map trim L = L" using assms by (intro map_idI) (simp add: trim_id)
  have 2: "filter (\<lambda>t. t \<noteq> []) L = L" using assms by (intro filter_True) simp
  have 3: "map cut45 L = L" using assms by (intro map_idI) (auto simp: cut45_def)
  show ?thesis by (simp add: cleaned_def 1 2 3)
qed

lemma post_process_id:
  assumes "\<forall>t \<in> set L. t \<noteq> [] \<and> no_outer_ws t \<and> length t \<le> 45" "distinct L"
  shows "post_process L = L"
  using assms
  by (simp add: post_process_cleaned cleaned_id array_from_set_def set_add_all_id)

lemma mapM_title_strings: "mapM title_of_element (map VStr L) = Inr (map trim L)"
  by (induction L) (simp_all add: title_of_element_def)

lemma titles_key_neq [simp]: "asc ''titles'' \<noteq> asc ''suggestions''"
  by (simp add: asc_def)

lemma titles_source_array:
  "titles_source (VObj [(asc ''titles'', VArr xs)]) = VArr xs"
  by (simp add: titles_source_def nc_def)

text \<open>
  Claim C3. Whenever the title normalizer returns a list for a payload, every element of
  the list is a non-empty string with no leading or trailing white space and at most 45
  code units long, no two elements at distinct positions are equal, and the elements
  stand in the order of their first occurrences among the cleaned titles of the source.
\<close>

theorem normalizer_output_invariants:
  assumes "normalizeTitlesFromJson json = Inr L"
  shows "(\<forall>t \<in> set L. t \<noteq> [] \<and> no_outer_ws t \<and> length t \<le> 45) \<and> distinct L \<and>
         (\<exists>src. extract_titles json = Inr src \<and> set L = set (cleaned src) \<and>
                sorted_wrt (<) (map (first_index (cleaned src)) L))"
proof -
  from assms obtain src where src: "extract_titles json = Inr src" and L: "L = post_process src"
    by (auto simp: normalizeTitlesFromJson_def bind_Inr)
  have "set L = set (cleaned src)"
    by (simp add: L post_process_cleaned array_from_set_def set_add_all_set)
  moreover have "sorted_wrt (<) (map (first_index (cleaned src)) L)"
    by (simp add: L post_process_cleaned array_from_set_order)
  ultimately show ?thesis using src post_process_props[of src] L by blast
qed

text \<open>
  Claim C4. Normalization is idempotent: when the normalizer returns \<open>L\<close> for a
  payload, it returns exactly \<open>L\<close> again for the payload \<open>{"titles": L}\<close>.
\<close>

theorem normalizer_idempotent:
  assumes "normalizeTitlesFromJson json = Inr L"
  shows "normalizeTitlesFromJson (VObj [(asc ''titles'', VArr (map VStr L))]) = Inr L"
proof -
  from assms obtain src where L: "L = post_process src"
    by (auto simp: normalizeTitlesFromJson_def bind_Inr)
  have p: "\<forall>t \<in> set L. t \<noteq> [] \<and> no_outer_ws t \<and> length t \<le> 45" and d: "distinct L"
    using post_process_props[of src] L by simp_all
  have 1: "map trim L = L" using p by (intro map_idI) (simp add: trim_id)
  have 2: "filter (\<lambda>t. t \<noteq> []) L = L" using p by (intro filter_True) simp
  have "extract_titles (VObj [(asc ''titles'', VArr (map VStr L))]) = Inr L"
    by (simp add: extract_titles_def titles_source_array mapM_title_strings bind_def 1 2)
  then show ?thesis
    by (simp add: normalizeTitlesFromJson_def bind_def post_process_id[OF p d])
qed

lemma comma_segments_clean: "map trim (comma_segments s) = comma_segments s"
  unfolding comma_segments_def
  by (intro map_idI) (auto simp: trim_trim)

text \<open>
  Claim C6. When the \<open>titles\<close> field of the payload is a string, the normalizer splits
  it on commas, trims each segment and discards the empty segments (the common last step
  then cuts at 45 code units and removes duplicates); the payload
  \<open>{"titles": "A, B, B, C"}\<close> yields exactly \<open>["A","B","C"]\<close>.
\<close>

theorem normalizer_comma_string:
  "(\<forall>kv s. map_of kv (asc ''titles'') = Some (VStr s) \<longrightarrow>
      normalizeTitlesFromJson (VObj kv) =
        Inr (array_from_set (map cut45 (filter (\<lambda>t. t \<noteq> []) (map trim (split_on 0x2C s)))))) \<and>
   normalizeTitlesFromJson (VObj [(asc ''titles'', VStr (asc ''A, B, B, C''))]) =
     Inr [asc ''A'', asc ''B'', asc ''C'']"
proof (intro conjI allI impI)
  fix kv s
  assume k: "map_of kv (asc ''titles'') = Some (VStr s)"
  have 1: "titles_source (VObj kv) = VStr s" by (simp add: titles_source_def nc_def k)
  have 2: "extract_titles (VObj kv) = Inr (comma_segments s)"
    by (simp add: extract_titles_def 1 comma_segments_def)
  have 3: "filter (\<lambda>t. t \<noteq> []) (comma_segments s) = comma_segments s"
    by (intro filter_True) (simp add: comma_segments_def)
  show "normalizeTitlesFromJson (VObj kv) =
        Inr (array_from_set (map cut45 (filter (\<lambda>t. t \<noteq> []) (map trim (split_on 0x2C s)))))"
    by (simp add: normalizeTitlesFromJson_def 2 bind_def post_process_def comma_segments_clean 3)
       (simp add: comma_segments_def)
next
  show "normalizeTitlesFromJson (VObj [(asc ''titles'', VStr (asc ''A, B, B, C''))]) =
     Inr [asc ''A'', asc ''B'', asc ''C'']"
    by code_simp
qed

theorem normalizer_output_invariants_witness:
  "normalizeTitlesFromJson (VObj [(asc ''titles'', VStr (asc ''A, B, B, C''))]) =
     Inr [asc ''A'', asc ''B'', asc ''C''] \<and>
   asc ''B'' \<noteq> [] \<and> no_outer_ws (asc ''B'') \<and> length (asc ''B'') \<le> 45 \<and>
   distinct [asc ''A'', asc ''B'', asc ''C'']"
proof -
  have h: "normalizeTitlesFromJson (VObj [(asc ''titles'', VStr (asc ''A, B, B, C''))]) =
     Inr [asc ''A'', asc ''B'', asc ''C'']" by code_simp
  from normalizer_output_invariants[OF h]
  have "(\<forall>t \<in> set [asc ''A'', asc ''B'', asc ''C''].
           t \<noteq> [] \<and> no_outer_ws t \<and> length t \<le> 45) \<and>
        distinct [asc ''A'', asc ''B'', asc ''C'']" by blast
  then show ?thesis using h by simp
qed

theorem normalizer_idempotent_witness:
  "normalizeTitlesFromJson (VObj [(asc ''titles'', VStr (asc ''A, B, B, C''))]) =
     Inr [asc ''A'', asc ''B'', asc ''C''] \<and>
   normalizeTitlesFromJson
     (VObj [(asc ''titles'', VArr (map VStr [asc ''A'', asc ''B'', asc ''C'']))]) =
     Inr [asc ''A'', asc ''B'', asc ''C'']"
proof -
  have h: "normalizeTitlesFromJson (VObj [(asc ''titles'', VStr (asc ''A, B, B, C''))]) =
     Inr [asc ''A'', asc ''B'', asc ''C'']" by code_simp
  show ?thesis using normalizer_idempotent[OF h] h by blast
qed

theorem normalizer_comma_string_witness:
  "map_of [(asc ''suggestions'', VNull), (asc ''titles'', VStr (asc '' x ,,y''))] (asc ''titles'') =
     Some (VStr (asc '' x ,,y'')) \<and>
   normalizeTitlesFromJson
     (VObj [(asc ''suggestions'', VNull), (asc ''titles'', VStr (asc '' x ,,y''))]) =
     Inr [asc ''x'', asc ''y'']"
proof -
  have h: "map_of [(asc ''suggestions'', VNull), (asc ''titles'', VStr (asc '' x ,,y''))]
             (asc ''titles'') = Some (VStr (asc '' x ,,y''))" by code_simp
  have e: "array_from_set (map cut45 (filter (\<lambda>t. t \<noteq> [])
             (map trim (split_on 0x2C (asc '' x ,,y''))))) = [asc ''x'', asc ''y'']"
    by code_simp
  from normalizer_comma_string h e show ?thesis by simp
qed

section \<open>The two normalizers compared\<close>

lemma source_part001:
  "nc (opt_get json (asc ''titles'')) (opt_get json (asc ''suggestions'')) = titles_source json"
  by (cases json) (simp_all add: opt_get_def titles_source_def nc_def)

lemma title_like_chains:
  assumes "title_like (VObj kv)"
  obtains t where "t \<noteq> []"
    "nc (nc (field (VObj kv) (asc ''title'')) (field (VObj kv) (asc ''text'')))
        (field (VObj kv) (asc ''suggestion'')) = VStr t"
    "or_else (or_else (field (VObj kv) (asc ''title'')) (field (VObj kv) (asc ''text'')))
        (field (VObj kv) (asc ''suggestion'')) = VStr t"
proof -
  define a where "a = field (VObj kv) (asc ''title'')"
  define b where "b = field (VObj kv) (asc ''text'')"
  define c where "c = field (VObj kv) (asc ''suggestion'')"
  from assms obtain t where t: "t \<noteq> []" "nc (nc a b) c = VStr t"
    by (auto simp: a_def b_def c_def split: jsval.splits)
  have n: "\<And>v. nullish v \<Longrightarrow> \<not> truthy v" by (case_tac v) simp_all
  have "or_else (or_else a b) c = VStr t"
    using t n[of a] n[of b] by (auto simp: nc_def or_else_def split: if_splits)
  with t that show ?thesis unfolding a_def b_def c_def by blast
qed

lemma element_agrees:
  assumes "simple_element s"
  shows "\<exists>t. title_of_element s = Inr t \<and> title_of_element_part001 s = Inr (VStr t)"
proof (cases s)
  case (VObj kv)
  with assms have "title_like (VObj kv)" by simp
  then obtain t where t: "t \<noteq> []"
    "nc (nc (field (VObj kv) (asc ''title'')) (field (VObj kv) (asc ''text'')))
        (field (VObj kv) (asc ''suggestion'')) = VStr t"
    "or_else (or_else (field (VObj kv) (asc ''title'')) (field (VObj kv) (asc ''text'')))
        (field (VObj kv) (asc ''suggestion'')) = VStr t"
    by (rule title_like_chains)
  have "title_of_element (VObj kv) = Inr (trim t)"
    by (simp add: title_of_element_def t(2) del: field.simps)
  moreover have "title_of_element_part001 (VObj kv) = Inr (VStr (trim t))"
    using t(1) by (simp add: title_of_element_part001_def opt_get_def t(3) call_trim_def del: field.simps)
  ultimately show ?thesis using VObj by simp
qed (use assms in \<open>simp_all add: title_of_element_def title_of_element_part001_def opt_get_def
       or_else_def bind_def js_String_def\<close>)

lemma elements_agree:
  "list_all simple_element xs \<Longrightarrow>
   \<exists>ts. mapM title_of_element xs = Inr ts \<and> mapM title_of_element_part001 xs = Inr (map VStr ts)"
proof (induction xs)
  case Nil
  then show ?case by simp
next
  case (Cons x xs)
  then obtain ts where ts: "mapM title_of_element xs = Inr ts"
      "mapM title_of_element_part001 xs = Inr (map VStr ts)" by auto
  from Cons.prems obtain t where t: "title_of_element x = Inr t"
      "title_of_element_part001 x = Inr (VStr t)"
    using element_agrees[of x] by auto
  show ?case by (simp add: ts t)
qed

lemma js_String_strings: "mapM js_String (map VStr ts) = Inr ts"
  by (induction ts) (simp_all add: js_String_def)

lemma trim_Nil: "trim [] = []"
  by (simp add: trim_def)

lemma filter_trim_filter:
  "filter (\<lambda>t. t \<noteq> []) (map trim (filter (\<lambda>t. t \<noteq> []) ts)) = filter (\<lambda>t. t \<noteq> []) (map trim ts)"
  by (induction ts) (simp_all add: trim_Nil)

lemma post_process_filtered:
  "post_process (filter (\<lambda>t. t \<noteq> []) ts) =
   array_from_set (map cut45 (filter (\<lambda>t. t \<noteq> []) (map trim ts)))"
  by (simp add: post_process_def filter_trim_filter)

lemma post_process_plain:
  "post_process ts = array_from_set (map cut45 (filter (\<lambda>t. t \<noteq> []) (map trim ts)))"
  by (simp add: post_process_def)

text \<open>
  Claim C5, as amended. The normalizer of \<open>src/unnamed/part_001\<close> and the one of the
  public route return the same result for every payload whose \<open>titles\<close> value (or
  \<open>suggestions\<close>, when \<open>titles\<close> is null or absent) is a string, an array whose elements are
  strings, other non-objects or title-like objects, a single title-like object, or
  anything that is no array and no object.
\<close>

theorem normalizers_agree_on_simple_payloads:
  assumes "simple_source (titles_source json)"
  shows "normalizeTitlesFromJson_part001 json = normalizeTitlesFromJson json"
proof (cases "titles_source json")
  case (VStr s)
  then show ?thesis
    by (simp add: normalizeTitlesFromJson_part001_def normalizeTitlesFromJson_def
          extract_titles_part001_def extract_titles_def source_part001 bind_def
          js_String_strings post_process_plain)
next
  case (VArr xs)
  with assms have "list_all simple_element xs" by simp
  then obtain ts where ts: "mapM title_of_element xs = Inr ts"
      "mapM title_of_element_part001 xs = Inr (map VStr ts)"
    using elements_agree by blast
  show ?thesis
    by (simp add: normalizeTitlesFromJson_part001_def normalizeTitlesFromJson_def
          extract_titles_part001_def extract_titles_def source_part001 VArr bind_def ts
          js_String_strings post_process_filtered)
next
  case (VObj kv)
  with assms have "title_like (VObj kv)" by simp
  then obtain t where t: "t \<noteq> []"
    "nc (nc (field (VObj kv) (asc ''title'')) (field (VObj kv) (asc ''text'')))
        (field (VObj kv) (asc ''suggestion'')) = VStr t"
    "or_else (or_else (field (VObj kv) (asc ''title'')) (field (VObj kv) (asc ''text'')))
        (field (VObj kv) (asc ''suggestion'')) = VStr t"
    by (rule title_like_chains)
  show ?thesis
    by (simp add: normalizeTitlesFromJson_part001_def normalizeTitlesFromJson_def
          extract_titles_part001_def extract_titles_def source_part001 VObj bind_def t(2,3)
          post_process_plain js_String_def del: field.simps)
qed (simp_all add: normalizeTitlesFromJson_part001_def normalizeTitlesFromJson_def
          extract_titles_part001_def extract_titles_def source_part001 bind_def post_process_plain
          array_from_set_def)

text \<open>
  The two normalizers differ on \<open>{"titles": [{"title": "", "text": "Y"}]}\<close>: the public
  route takes the empty \<open>title\<close> (\<open>??\<close> passes over null and undefined only) and
  returns no title, \<open>part_001\<close> passes over it (\<open>||\<close>) and returns \<open>["Y"]\<close>.
\<close>

theorem normalizers_differ_counterexample:
  "normalizeTitlesFromJson_part001
     (VObj [(asc ''titles'', VArr [VObj [(asc ''title'', VStr []), (asc ''text'', VStr (asc ''Y''))]])])
     = Inr [asc ''Y''] \<and>
   normalizeTitlesFromJson
     (VObj [(asc ''titles'', VArr [VObj [(asc ''title'', VStr []), (asc ''text'', VStr (asc ''Y''))]])])
     = Inr []"
  by code_simp

theorem normalizers_agree_witness:
  "simple_source (titles_source
      (VObj [(asc ''titles'', VArr [VStr (asc '' X ''), VNull, VObj [(asc ''text'', VStr (asc ''Z''))]])])) \<and>
   normalizeTitlesFromJson_part001
      (VObj [(asc ''titles'', VArr [VStr (asc '' X ''), VNull, VObj [(asc ''text'', VStr (asc ''Z''))]])]) =
   normalizeTitlesFromJson
      (VObj [(asc ''titles'', VArr [VStr (asc '' X ''), VNull, VObj [(asc ''text'', VStr (asc ''Z''))]])])"
proof -
  have h: "simple_source (titles_source
      (VObj [(asc ''titles'', VArr [VStr (asc '' X ''), VNull, VObj [(asc ''text'', VStr (asc ''Z''))]])]))"
    by code_simp
  from normalizers_agree_on_simple_payloads[OF h] h show ?thesis by simp
qed

section \<open>Properties of fence stripping\<close>

lemma fence_length [simp]: "length fence = 3"
  by (simp add: fence_def)

lemma backtick_not_ws: "\<not> is_ws 0x60"
  by (simp add: is_ws_def)

lemma json_tag_length: "map lower_ascii tag = asc ''json'' \<Longrightarrow> length tag = 4"
proof -
  assume "map lower_ascii tag = asc ''json''"
  then have "length (map lower_ascii tag) = length (asc ''json'')" by simp
  then show ?thesis by (simp add: asc_def)
qed

lemma strip_json_marker_tagged:
  assumes "map lower_ascii tag = asc ''json''"
  shows "strip_json_marker (fence @ tag @ 0xA # rest) = rest"
proof -
  have l: "length tag = 4" using assms by (rule json_tag_length)
  have "take 4 (drop 3 (fence @ tag @ 0xA # rest)) = tag" using l by simp
  moreover have "drop 7 (fence @ tag @ 0xA # rest) = 0xA # rest" using l by simp
  moreover have "take 3 (fence @ tag @ 0xA # rest) = fence" by simp
  ultimately show ?thesis using assms by (simp add: strip_json_marker_def)
qed

lemma strip_json_marker_bare: "strip_json_marker (fence @ 0xA # rest) = fence @ 0xA # rest"
proof -
  have "map lower_ascii (take 4 (drop 3 (fence @ 0xA # rest))) \<noteq> asc ''json''"
    by (simp add: asc_def lower_ascii_def take_Cons')
  then show ?thesis by (simp add: strip_json_marker_def)
qed

lemma strip_marker_bare: "strip_marker (fence @ 0xA # rest) = rest"
  by (simp add: strip_marker_def)

lemma strip_marker_none: "take 3 s \<noteq> fence \<Longrightarrow> strip_marker s = s"
  by (simp add: strip_marker_def)

lemma not_closing_at:
  assumes "2 \<le> length pre"
  shows "\<not> closing_at (pre @ fence @ ws)"
proof -
  have d: "drop 3 (xs @ ys) = drop 3 xs @ ys" if "3 \<le> length xs" for xs ys :: jstr
    using that by simp
  have "pre @ fence @ ws = (pre @ [0x60, 0x60]) @ 0x60 # ws"
    by (simp add: fence_def)
  moreover have "3 \<le> length (pre @ [0x60, 0x60 :: cu])" using assms by simp
  ultimately have "drop 3 (pre @ fence @ ws) = drop 3 (pre @ [0x60, 0x60]) @ 0x60 # ws"
    by (simp only: d)
  then have "\<not> list_all is_ws (drop 3 (pre @ fence @ ws))"
    by (simp add: backtick_not_ws)
  then show ?thesis by (simp add: closing_at_def)
qed

lemma strip_closing_wrapped:
  assumes "list_all is_ws ws"
  shows "strip_closing (body @ 0xA # fence @ ws) = body"
proof (induction body)
  case Nil
  have "closing_at (fence @ ws)" using assms by (simp add: closing_at_def)
  then show ?case by (simp add: closing_match_def)
next
  case (Cons c cs)
  have 1: "\<not> closing_at ((c # cs @ [0xA]) @ fence @ ws)" by (rule not_closing_at) simp
  have 2: "\<not> closing_at ((cs @ [0xA]) @ fence @ ws)" if "c = 0xA"
  proof (cases cs)
    case Nil
    have "drop 3 (0xA # fence @ ws) = 0x60 # ws" by (simp add: fence_def)
    then show ?thesis using Nil by (simp add: closing_at_def backtick_not_ws)
  next
    case (Cons d ds)
    show ?thesis unfolding Cons by (rule not_closing_at) simp
  qed
  from 1 2 have "\<not> closing_match (c # cs @ 0xA # fence @ ws)"
    by (auto simp: closing_match_def)
  with Cons.IH show ?case by simp
qed

lemma take3_wrapped: "take 3 body \<noteq> fence \<Longrightarrow> take 3 (body @ 0xA # fence @ ws) \<noteq> fence"
proof -
  assume a: "take 3 body \<noteq> fence"
  show ?thesis
  proof (cases "3 \<le> length body")
    case True
    then show ?thesis using a by simp
  next
    case False
    then have "(take 3 (body @ 0xA # fence @ ws)) ! length body = 0xA"
      by (simp add: nth_append)
    moreover have "fence ! length body \<noteq> 0xA"
      using False by (cases "length body") (auto simp: fence_def nth_Cons')
    ultimately show ?thesis by metis
  qed
qed

lemma strip_text_wrapped:
  assumes "tag = [] \<or> map lower_ascii tag = asc ''json''"
    and "take 3 body \<noteq> fence" and "list_all is_ws ws"
  shows "strip_text (fence @ tag @ [0xA] @ body @ [0xA] @ fence @ ws) = body"
proof -
  let ?rest = "body @ 0xA # fence @ ws"
  have r: "strip_marker ?rest = ?rest"
    using assms(2) by (intro strip_marker_none take3_wrapped)
  have "strip_marker (strip_json_marker (fence @ tag @ 0xA # ?rest)) = ?rest"
    using assms(1) by (auto simp: strip_json_marker_tagged strip_json_marker_bare strip_marker_bare r)
  then show ?thesis
    by (simp add: strip_text_def strip_closing_wrapped[OF assms(3)])
qed

lemma stripCodeFences_string: "stripCodeFences (VStr s) = Inr (VStr (strip_text s))"
  by (simp add: stripCodeFences_def call_replace_def bind_def strip_text_def)

lemma example_text:
  \<open>asc ''```json'' @ [0xA] @ asc ''{"titles":"One, Two"}'' @ [0xA] @ asc ''```'' =
   fence @ asc ''json'' @ [0xA] @ asc ''{"titles":"One, Two"}'' @ [0xA] @ fence @ []\<close>
  by (simp add: asc_def fence_def)

text \<open>
  Claim C7. For a text wrapped in a Markdown code fence (a leading fence with or without
  the tag \<open>json\<close> in any case, a newline, a body that does not itself start with a
  fence, a newline, a closing fence and optional white space), the fence stripper returns
  the body, so the strict decoding of the stripped text is the decoding of the body; the
  text \<open>```json\n{"titles":"One, Two"}\n```\<close> is stripped to
  \<open>{"titles":"One, Two"}\<close>, parsed and normalized to \<open>["One","Two"]\<close>.
\<close>

theorem fence_stripping:
  \<open>(\<forall>tag body ws.
      (tag = [] \<or> map lower_ascii tag = asc ''json'') \<and> take 3 body \<noteq> fence \<and> list_all is_ws ws \<longrightarrow>
      stripCodeFences (VStr (fence @ tag @ [0xA] @ body @ [0xA] @ fence @ ws)) = Inr (VStr body)) \<and>
   (\<forall>parse tag body ws v.
      (tag = [] \<or> map lower_ascii tag = asc ''json'') \<and> take 3 body \<noteq> fence \<and> list_all is_ws ws \<and>
      parse body = Some v \<and> \<not> nullish v \<longrightarrow>
      parse_payload parse (VStr (fence @ tag @ [0xA] @ body @ [0xA] @ fence @ ws)) = Inr v) \<and>
   (\<forall>parse.
      parse (asc ''{"titles":"One, Two"}'') = Some (VObj [(asc ''titles'', VStr (asc ''One, Two''))]) \<longrightarrow>
      stripCodeFences (VStr (asc ''```json'' @ [0xA] @ asc ''{"titles":"One, Two"}'' @ [0xA] @ asc ''```''))
        = Inr (VStr (asc ''{"titles":"One, Two"}'')) \<and>
      bind (parse_payload parse
              (VStr (asc ''```json'' @ [0xA] @ asc ''{"titles":"One, Two"}'' @ [0xA] @ asc ''```'')))
           normalizeTitlesFromJson
        = Inr [asc ''One'', asc ''Two''])\<close>
proof (intro conjI allI impI)
  fix tag body ws
  assume "(tag = [] \<or> map lower_ascii tag = asc ''json'') \<and> take 3 body \<noteq> fence \<and> list_all is_ws ws"
  then have "strip_text (fence @ tag @ [0xA] @ body @ [0xA] @ fence @ ws) = body"
    by (intro strip_text_wrapped) simp_all
  then show "stripCodeFences (VStr (fence @ tag @ [0xA] @ body @ [0xA] @ fence @ ws)) = Inr (VStr body)"
    by (simp only: stripCodeFences_string)
next
  fix parse :: "jstr \<Rightarrow> jsval option" and tag body ws v
  assume a: "(tag = [] \<or> map lower_ascii tag = asc ''json'') \<and> take 3 body \<noteq> fence \<and> list_all is_ws ws \<and>
      parse body = Some v \<and> \<not> nullish v"
  then have "strip_text (fence @ tag @ [0xA] @ body @ [0xA] @ fence @ ws) = body"
    by (intro strip_text_wrapped) simp_all
  then show "parse_payload parse (VStr (fence @ tag @ [0xA] @ body @ [0xA] @ fence @ ws)) = Inr v"
    using a by (simp add: parse_payload_def stripCodeFences_string bind_def tryParseJson_def nc_def)
next
  fix parse :: "jstr \<Rightarrow> jsval option"
  assume p: \<open>parse (asc ''{"titles":"One, Two"}'') = Some (VObj [(asc ''titles'', VStr (asc ''One, Two''))])\<close>
  have b: \<open>take 3 (asc ''{"titles":"One, Two"}'') \<noteq> fence\<close> by (simp add: asc_def fence_def)
  have s: \<open>strip_text (asc ''```json'' @ [0xA] @ asc ''{"titles":"One, Two"}'' @ [0xA] @ asc ''```'')
             = asc ''{"titles":"One, Two"}''\<close>
    unfolding example_text
    by (rule strip_text_wrapped) (simp_all add: b, simp add: asc_def lower_ascii_def)
  show \<open>stripCodeFences (VStr (asc ''```json'' @ [0xA] @ asc ''{"titles":"One, Two"}'' @ [0xA] @ asc ''```''))
        = Inr (VStr (asc ''{"titles":"One, Two"}''))\<close>
    by (simp only: stripCodeFences_string s)
  have n: "normalizeTitlesFromJson (VObj [(asc ''titles'', VStr (asc ''One, Two''))]) = Inr [asc ''One'', asc ''Two'']"
    by code_simp
  show \<open>bind (parse_payload parse
              (VStr (asc ''```json'' @ [0xA] @ asc ''{"titles":"One, Two"}'' @ [0xA] @ asc ''```'')))
           normalizeTitlesFromJson
        = Inr [asc ''One'', asc ''Two'']\<close>
    by (simp add: parse_payload_def stripCodeFences_string s bind_def tryParseJson_def p nc_def n
             del: append.simps)
qed

theorem fence_stripping_witness:
  \<open>stripCodeFences (VStr (fence @ asc ''JSON'' @ [0xA] @ asc ''[1]'' @ [0xA] @ fence @ asc '' ''))
     = Inr (VStr (asc ''[1]'')) \<and>
   bind (parse_payload
           (\<lambda>s. if s = asc ''{"titles":"One, Two"}''
                then Some (VObj [(asc ''titles'', VStr (asc ''One, Two''))]) else None)
           (VStr (asc ''```json'' @ [0xA] @ asc ''{"titles":"One, Two"}'' @ [0xA] @ asc ''```'')))
        normalizeTitlesFromJson
     = Inr [asc ''One'', asc ''Two'']\<close>
proof -
  have c: "(asc ''JSON'' = [] \<or> map lower_ascii (asc ''JSON'') = asc ''json'') \<and>
           take 3 (asc ''[1]'') \<noteq> fence \<and> list_all is_ws (asc '' '')"
    by (simp add: asc_def lower_ascii_def fence_def is_ws_def)
  from fence_stripping c show ?thesis by simp
qed

section \<open>Properties of the endpoints\<close>

lemma parse_payload_string:
  "parse_payload parse (VStr raw) =
     Inr (nc (case parse (strip_text raw) of None \<Rightarrow> VNull | Some v \<Rightarrow> v)
             (case parse raw of None \<Rightarrow> VNull | Some v \<Rightarrow> v))"
  by (simp add: parse_payload_def stripCodeFences_string bind_def tryParseJson_def)

lemma truthy_not_nullish: "truthy v \<Longrightarrow> \<not> nullish v"
  by (cases v) simp_all

text \<open>
  Claim C1, as amended. On the public endpoint, for an extracted text that is a string:
  the response is the 502 \<open>Model returned non-JSON output\<close> with the raw text attached
  whenever each of the two decodes (of the stripped and of the unstripped text) fails or
  yields \<open>null\<close>; whenever the stripped text decodes to a truthy value, or it fails or
  yields \<open>null\<close> and the unstripped text decodes to a truthy value, that value goes
  on to normalization.
\<close>

theorem public_decode_stage:
  assumes "extractText resp = Inr (VStr raw)"
  shows "((parse (strip_text raw) = None \<or> parse (strip_text raw) = Some VNull) \<and>
          (parse raw = None \<or> parse raw = Some VNull) \<longrightarrow>
            respond_public parse resp =
              \<lparr>status = 502,
               payload = ErrorRawBody (asc ''Model returned non-JSON output'') (VStr raw),
               headers = corsHeaders\<rparr>) \<and>
         (\<forall>v. parse (strip_text raw) = Some v \<and> truthy v \<longrightarrow>
            respond_public parse resp = respond_normalized v) \<and>
         (\<forall>v. (parse (strip_text raw) = None \<or> parse (strip_text raw) = Some VNull) \<and>
              parse raw = Some v \<and> truthy v \<longrightarrow>
            respond_public parse resp = respond_normalized v)"
  using assms
  by (auto simp: respond_public_def parse_payload_string respond_titles_def nc_def
           dest: truthy_not_nullish)

text \<open>
  The text \<open>null\<close> is valid JSON and both decodes succeed, yet the response is the 502
  \<open>Model returned non-JSON output\<close>: \<open>tryParseJson\<close> reports a failure as \<open>null\<close> too.
\<close>

theorem public_decode_null_counterexample:
  "parse_null_only (strip_text (asc ''null'')) = Some VNull \<and>
   parse_null_only (asc ''null'') = Some VNull \<and>
   extractText (VStr (asc ''null'')) = Inr (VStr (asc ''null'')) \<and>
   respond_public parse_null_only (VStr (asc ''null'')) =
     \<lparr>status = 502,
      payload = ErrorRawBody (asc ''Model returned non-JSON output'') (VStr (asc ''null'')),
      headers = corsHeaders\<rparr>"
  by code_simp

theorem public_decode_stage_witness:
  "extractText (VStr (asc ''plain prose'')) = Inr (VStr (asc ''plain prose'')) \<and>
   respond_public parse_nothing (VStr (asc ''plain prose'')) =
     \<lparr>status = 502,
      payload = ErrorRawBody (asc ''Model returned non-JSON output'') (VStr (asc ''plain prose'')),
      headers = corsHeaders\<rparr>"
proof -
  have h: "extractText (VStr (asc ''plain prose'')) = Inr (VStr (asc ''plain prose''))"
    by code_simp
  from public_decode_stage[OF h, of parse_nothing] h show ?thesis
    by (simp add: parse_nothing_def)
qed

text \<open>
  Claim C8. When \<open>GEMINI_API_KEY\<close> is absent (or empty), both endpoints answer every
  request with status 500 and the error \<open>Missing GEMINI_API_KEY environment variable\<close>,
  and nothing is sent to the generation service.
\<close>

theorem missing_credential:
  "POST None gen parse req_json =
     (\<lparr>status = 500,
       payload = ErrorBody (asc ''Missing GEMINI_API_KEY environment variable''),
       headers = corsHeaders\<rparr>, []) \<and>
   POST_suggest None gen parse req_json =
     (\<lparr>status = 500,
       payload = ErrorBody (asc ''Missing GEMINI_API_KEY environment variable''),
       headers = []\<rparr>, []) \<and>
   POST (Some []) gen parse req_json = POST None gen parse req_json \<and>
   POST_suggest (Some []) gen parse req_json = POST_suggest None gen parse req_json"
  by (simp add: POST_def POST_suggest_def call_model_def missing_key_response_def
           split: prod.splits)

text \<open>
  Claim C9. On the internal endpoint, when the extracted text is decoded neither after
  fence stripping nor as it is, the response has status 200 and the raw text as a
  \<open>text/plain\<close> body; the decode failure is not reported as an error.
\<close>

theorem suggest_decode_failure:
  assumes "key \<noteq> []"
    and "request_fields_suggest req_json = (description, keywords, niche, language)"
    and "buildUserPrompt description keywords niche language = Inr prompt"
    and "gen key prompt = Some resp"
    and "extractText_suggest resp = Inr (VStr text)"
    and "parse (strip_text text) = None" and "parse text = None"
  shows "POST_suggest (Some key) gen parse req_json =
           (\<lparr>status = 200, payload = TextBody (VStr text),
             headers = [(asc ''Content-Type'', asc ''text/plain; charset=utf-8'')]\<rparr>,
            [prompt])"
  using assms
  by (simp add: POST_suggest_def call_model_def respond_suggest_def parse_payload_string nc_def)

theorem suggest_decode_failure_witness:
  "POST_suggest (Some (asc ''k'')) (\<lambda>k p. Some (VStr (asc ''plain prose''))) parse_nothing None =
     (\<lparr>status = 200, payload = TextBody (VStr (asc ''plain prose'')),
       headers = [(asc ''Content-Type'', asc ''text/plain; charset=utf-8'')]\<rparr>,
      [asc ''Respond in JSON only, no extra text.'' @ [0xA] @
       asc ''All titles must be <= 45 characters each.''])"
proof -
  have 1: "asc ''k'' \<noteq> []" by (simp add: asc_def)
  have 2: "request_fields_suggest None = (VUndef, VUndef, VUndef, VUndef)" by code_simp
  have 3: "buildUserPrompt VUndef VUndef VUndef VUndef =
             Inr (asc ''Respond in JSON only, no extra text.'' @ [0xA] @
                  asc ''All titles must be <= 45 characters each.'')" by code_simp
  have 5: "extractText_suggest (VStr (asc ''plain prose'')) = Inr (VStr (asc ''plain prose''))"
    by code_simp
  show ?thesis
    by (rule suggest_decode_failure[OF 1 2 3 _ 5]) (simp_all add: parse_nothing_def)
qed

lemma status_exception [simp]: "status (exception_response hs e) = 500"
  by (simp add: exception_response_def)

lemma status_respond_public: "status (respond_public parse resp) \<in> {200, 500, 502}"
  by (simp add: respond_public_def respond_titles_def respond_normalized_def
           split: sum.splits)

lemma status_respond_suggest: "status (respond_suggest parse resp) \<in> {200, 500, 502}"
  by (simp add: respond_suggest_def split: sum.splits)

lemma status_call_model:
  assumes "\<And>resp. status (respond resp) \<in> {200, 500, 502}"
  shows "status (fst (call_model hs respond apiKey gen flds)) \<in> {200, 500, 502}"
  using assms
  by (auto simp: call_model_def missing_key_response_def
           split: prod.splits option.splits sum.splits)

lemma fields_of_non_object:
  "\<not> is_plain_object b \<Longrightarrow> request_fields (Some b) = (VUndef, VUndef, VUndef, VUndef)"
  by (cases b) (simp_all add: request_fields_def string_field_def)

lemma fields_suggest_of_non_object:
  "\<not> is_plain_object b \<Longrightarrow> request_fields_suggest (Some b) = (VUndef, VUndef, VUndef, VUndef)"
  by (cases b) (simp_all add: request_fields_suggest_def)

lemma fields_of_empty:
  "request_fields (Some (VObj [])) = (VUndef, VUndef, VUndef, VUndef)"
  "request_fields None = (VUndef, VUndef, VUndef, VUndef)"
  "request_fields_suggest (Some (VObj [])) = (VUndef, VUndef, VUndef, VUndef)"
  "request_fields_suggest None = (VUndef, VUndef, VUndef, VUndef)"
  by (simp_all add: request_fields_def request_fields_suggest_def string_field_def)

text \<open>
  Claim C10. For a request whose body is not valid JSON or is not a JSON object, both
  endpoints read all four fields as absent and answer as they answer the body \<open>{}\<close>;
  no request is answered with a status other than 200, 500 or 502; and the public
  endpoint keeps only the strings of a \<open>keywords\<close> array.
\<close>

theorem body_parse_failure_swallowed:
  "(req_json = None \<or> (\<exists>b. req_json = Some b \<and> \<not> is_plain_object b) \<longrightarrow>
      request_fields req_json = (VUndef, VUndef, VUndef, VUndef) \<and>
      request_fields_suggest req_json = (VUndef, VUndef, VUndef, VUndef) \<and>
      POST apiKey gen parse req_json = POST apiKey gen parse (Some (VObj [])) \<and>
      POST_suggest apiKey gen parse req_json = POST_suggest apiKey gen parse (Some (VObj []))) \<and>
   status (fst (POST apiKey gen parse req_json)) \<in> {200, 500, 502} \<and>
   status (fst (POST_suggest apiKey gen parse req_json)) \<in> {200, 500, 502} \<and>
   (\<forall>kv ks. map_of kv (asc ''keywords'') = Some (VArr ks) \<longrightarrow>
      fst (snd (request_fields (Some (VObj kv)))) = VArr (filter is_string ks))"
proof (intro conjI impI allI)
  assume a: "req_json = None \<or> (\<exists>b. req_json = Some b \<and> \<not> is_plain_object b)"
  then show 1: "request_fields req_json = (VUndef, VUndef, VUndef, VUndef)"
    by (auto simp: fields_of_empty fields_of_non_object)
  from a show 2: "request_fields_suggest req_json = (VUndef, VUndef, VUndef, VUndef)"
    by (auto simp: fields_of_empty fields_suggest_of_non_object)
  show "POST apiKey gen parse req_json = POST apiKey gen parse (Some (VObj []))"
    by (simp add: POST_def 1 fields_of_empty)
  show "POST_suggest apiKey gen parse req_json = POST_suggest apiKey gen parse (Some (VObj []))"
    by (simp add: POST_suggest_def 2 fields_of_empty)
next
  show "status (fst (POST apiKey gen parse req_json)) \<in> {200, 500, 502}"
    unfolding POST_def by (rule status_call_model) (rule status_respond_public)
  show "status (fst (POST_suggest apiKey gen parse req_json)) \<in> {200, 500, 502}"
    unfolding POST_suggest_def by (rule status_call_model) (rule status_respond_suggest)
next
  fix kv ks
  assume "map_of kv (asc ''keywords'') = Some (VArr ks)"
  then show "fst (snd (request_fields (Some (VObj kv)))) = VArr (filter is_string ks)"
    by (simp add: request_fields_def Let_def)
qed

theorem body_parse_failure_swallowed_witness:
  "request_fields (Some (VArr [VStr (asc ''x'')])) = (VUndef, VUndef, VUndef, VUndef) \<and>
   request_fields_suggest (Some (VStr (asc ''description''))) = (VUndef, VUndef, VUndef, VUndef) \<and>
   POST (Some (asc ''k'')) (\<lambda>k p. Some (VStr p)) parse_nothing None =
   POST (Some (asc ''k'')) (\<lambda>k p. Some (VStr p)) parse_nothing (Some (VObj [])) \<and>
   fst (snd (request_fields (Some (VObj [(asc ''keywords'', VArr [VStr (asc ''a''), VNull, VStr (asc ''b'')])]))))
     = VArr [VStr (asc ''a''), VStr (asc ''b'')]"
proof -
  have a: "\<not> is_plain_object (VArr [VStr (asc ''x'')])" "\<not> is_plain_object (VStr (asc ''description''))"
    by simp_all
  have k: "map_of [(asc ''keywords'', VArr [VStr (asc ''a''), VNull, VStr (asc ''b'')])] (asc ''keywords'')
         = Some (VArr [VStr (asc ''a''), VNull, VStr (asc ''b'')])" by simp
  from body_parse_failure_swallowed[of "Some (VArr [VStr (asc ''x'')])"]
       body_parse_failure_swallowed[of "Some (VStr (asc ''description''))"]
       body_parse_failure_swallowed[of None "Some (asc ''k'')" "\<lambda>k p. Some (VStr p)" parse_nothing]
       a k
  show ?thesis by simp
qed

section \<open>Properties of the text extractors\<close>

lemma serialize_value_defined:
  "serialize_value v = Inr None \<Longrightarrow> v = VUndef \<or> is_function v \<or> is_symbol v"
  by (cases v) (auto split: sum.splits)

lemma serialize_property_defined:
  assumes "serialize_property v = Inr None" "stringifiable v"
  shows "v = VUndef"
proof (cases v)
  case (VObj kv)
  show ?thesis
  proof (cases "map_of kv (asc ''toJSON'')")
    case None
    with assms(1) VObj have "serialize_value (VObj kv) = Inr None" by simp
    from serialize_value_defined[OF this] show ?thesis by simp
  next
    case (Some m)
    show ?thesis
    proof (cases m)
      case (VFun src out)
      show ?thesis
      proof (cases out)
        case None
        with assms(1) VObj Some VFun show ?thesis by simp
      next
        case (Some r)
        with assms(1) VObj \<open>map_of kv (asc ''toJSON'') = Some m\<close> VFun
        have "serialize_value r = Inr None" by simp
        from serialize_value_defined[OF this] assms(2) VObj
          \<open>map_of kv (asc ''toJSON'') = Some m\<close> VFun Some
        show ?thesis by (simp add: stringifiable_def)
      qed
    qed (use assms(1) VObj Some serialize_value_defined[of "VObj kv"] in \<open>simp_all\<close>)
  qed
qed (use assms in \<open>auto simp: stringifiable_def split: sum.splits\<close>)

lemma JSON_stringify_string:
  assumes "JSON_stringify v = Inr r" "v \<noteq> VUndef" "stringifiable v"
  shows "is_string r"
  using assms serialize_property_defined[of v]
  by (auto simp: JSON_stringify_def split: sum.splits option.splits)

lemma function_field_object: "is_function (field v k) \<Longrightarrow> \<exists>kv. v = VObj kv"
  by (cases v) simp_all

lemma extractText_try_text:
  assumes "field resp (asc ''text'') = VFun src out"
  shows "extractText_try resp = call_awaited (VFun src out)"
proof -
  from assms have "is_function (field resp (asc ''text''))" by simp
  then obtain kv where "resp = VObj kv" using function_field_object by blast
  with assms show ?thesis by (simp add: extractText_try_def)
qed

lemma extractText_try_response_text:
  assumes "\<not> is_function (field resp (asc ''text''))"
    "field (field resp (asc ''response'')) (asc ''text'') = VFun src out"
  shows "extractText_try resp = call_awaited (VFun src out)"
proof -
  from assms(2) have f: "is_function (field (field resp (asc ''response'')) (asc ''text''))" by simp
  then obtain kv' where r: "field resp (asc ''response'') = VObj kv'"
    using function_field_object by blast
  from r obtain kv where "resp = VObj kv" by (cases resp) simp_all
  with assms r show ?thesis by (simp add: extractText_try_def Let_def del: field.simps)
qed

lemma extractText_try_string:
  assumes "\<not> is_function (field resp (asc ''text''))"
    "\<not> is_function (field (field resp (asc ''response'')) (asc ''text''))"
    "stringifiable resp" "extractText_try resp = Inr v"
  shows "is_string v"
proof (cases "nullish resp")
  case True
  with assms(4) show ?thesis
    by (cases resp) (simp_all add: extractText_try_def get_def bind_def)
next
  case False
  then have u: "resp \<noteq> VUndef" by auto
  from assms False show ?thesis
    by (auto simp: extractText_try_def Let_def get_def bind_def
             split: if_splits sum.splits option.splits
             dest: JSON_stringify_string[OF _ u])
qed

lemma first_candidate_text_suggest_string:
  "first_candidate_text_suggest first = Inr (Some v) \<Longrightarrow> is_string v"
  by (auto simp: first_candidate_text_suggest_def Let_def bind_def
           split: sum.splits if_splits jsval.splits)
     (metis is_string.simps(1))

lemma extractText_suggest_try_text:
  assumes "field resp (asc ''text'') = VFun src out"
  shows "extractText_suggest_try resp = call_awaited (VFun src out)"
proof -
  from assms have "is_function (field resp (asc ''text''))" by simp
  then obtain kv where "resp = VObj kv" using function_field_object by blast
  with assms show ?thesis by (simp add: extractText_suggest_try_def)
qed

lemma extractText_suggest_try_response_text:
  assumes "\<not> is_function (field resp (asc ''text''))"
    "field (field resp (asc ''response'')) (asc ''text'') = VFun src out"
  shows "extractText_suggest_try resp = call_awaited (VFun src out)"
proof -
  from assms(2) have "is_function (field (field resp (asc ''response'')) (asc ''text''))" by simp
  then obtain kv' where r: "field resp (asc ''response'') = VObj kv'"
    using function_field_object by blast
  from r obtain kv where "resp = VObj kv" by (cases resp) simp_all
  with assms r show ?thesis
    by (simp add: extractText_suggest_try_def opt_get_def del: field.simps)
qed

lemma extractText_suggest_try_string:
  assumes "\<not> is_function (field resp (asc ''text''))"
    "\<not> is_function (field (field resp (asc ''response'')) (asc ''text''))"
    "stringifiable resp" "resp \<noteq> VUndef" "extractText_suggest_try resp = Inr v"
  shows "is_string v"
proof -
  have r: "\<not> is_function (field (opt_get resp (asc ''response'')) (asc ''text''))"
    using assms(2) by (cases "nullish resp") (simp_all add: opt_get_def)
  from assms(5) assms(1) r have
    "(if is_string (opt_get resp (asc ''outputText''))
      then Inr (opt_get resp (asc ''outputText''))
      else
       (let candidates = or_else (opt_get (opt_get resp (asc ''response'')) (asc ''candidates''))
                                 (opt_get resp (asc ''candidates''))
        in bind (case candidates of
                   VArr (first # rest) \<Rightarrow> first_candidate_text_suggest first
                 | _ \<Rightarrow> Inr None)
            (\<lambda>found. case found of
               Some t \<Rightarrow> Inr t
             | None \<Rightarrow>
                (let parts = opt_get (opt_get resp (asc ''content'')) (asc ''parts'')
                 in bind (joined_parts_suggest parts) (\<lambda>joined.
                      if joined \<noteq> [] then Inr (VStr joined)
                      else if is_string resp then Inr resp
                      else JSON_stringify resp))))) = Inr v"
    by (simp add: extractText_suggest_try_def)
  then show ?thesis
    using assms(3,4)
    by (auto simp: Let_def bind_def
             split: if_splits sum.splits option.splits jsval.splits list.splits
             dest: JSON_stringify_string first_candidate_text_suggest_string)
qed

text \<open>What the two \<open>try\<close> blocks return under the hypothesis on the accessors.\<close>

lemma try_results_are_strings:
  assumes "accessors_yield_strings resp"
  shows "(extractText_try resp = Inr v \<longrightarrow> is_string v) \<and>
         (resp \<noteq> VUndef \<and> extractText_suggest_try resp = Inr v \<longrightarrow> is_string v)"
proof (cases "is_function (field resp (asc ''text''))")
  case True
  then obtain src out where f: "field resp (asc ''text'') = VFun src out"
    by (cases "field resp (asc ''text'')") simp_all
  with assms have "yields_string out" by (simp add: accessors_yield_strings_def)
  then show ?thesis
    by (cases out)
       (auto simp: extractText_try_text[OF f] extractText_suggest_try_text[OF f] call_awaited_def)
next
  case nt: False
  show ?thesis
  proof (cases "is_function (field (field resp (asc ''response'')) (asc ''text''))")
    case True
    then obtain src out where f: "field (field resp (asc ''response'')) (asc ''text'') = VFun src out"
      by (cases "field (field resp (asc ''response'')) (asc ''text'')") simp_all
    with assms nt have "yields_string out"
      by (cases "field resp (asc ''text'')") (simp_all add: accessors_yield_strings_def)
    then show ?thesis
      by (cases out)
         (auto simp: extractText_try_response_text[OF nt f]
                     extractText_suggest_try_response_text[OF nt f] call_awaited_def)
  next
    case False
    have "stringifiable resp"
    proof -
      from assms have b: "\<not> is_function resp" "\<not> is_symbol resp"
        by (simp_all add: accessors_yield_strings_def)
      from assms nt have "case field (field resp (asc ''response'')) (asc ''text'') of
           VFun src out \<Rightarrow> yields_string out
         | _ \<Rightarrow>
           (case field resp (asc ''toJSON'') of
              VFun src out \<Rightarrow> yields_serializable out
            | _ \<Rightarrow> True)"
        by (cases "field resp (asc ''text'')") (simp_all add: accessors_yield_strings_def)
      with False have "case field resp (asc ''toJSON'') of
              VFun src out \<Rightarrow> yields_serializable out
            | _ \<Rightarrow> True"
        by (cases "field (field resp (asc ''response'')) (asc ''text'')") simp_all
      with b show ?thesis by (simp add: stringifiable_def)
    qed
    with nt False show ?thesis
      using extractText_try_string[of resp v] extractText_suggest_try_string[of resp v]
      by blast
  qed
qed

text \<open>
  Claim C2, as amended. Take a response that is no function and no symbol and whose
  accessor, where the extractor relies on one, behaves: \<open>text\<close>, when it is a function,
  throws or yields a string; otherwise \<open>response.text\<close>, when it is a function, throws
  or yields a string; when neither is a function, \<open>toJSON\<close>, if it is a function, throws
  or yields something other than \<open>undefined\<close>, a function or a symbol. Then the extractor
  of the public route returns a string and does not raise, provided that \<open>String\<close> can
  convert the response in case the \<open>try\<close> block throws; and so does the extractor of the
  internal route, under the same proviso, when the response is not \<open>undefined\<close>.
\<close>

theorem extractors_return_strings:
  assumes "accessors_yield_strings resp"
  shows "((\<exists>v. extractText_try resp = Inr v) \<or> (\<exists>t. js_String resp = Inr t) \<longrightarrow>
            (\<exists>s. extractText resp = Inr (VStr s))) \<and>
         (resp \<noteq> VUndef \<and>
          ((\<exists>v. extractText_suggest_try resp = Inr v) \<or> (\<exists>t. js_String resp = Inr t)) \<longrightarrow>
            (\<exists>s. extractText_suggest resp = Inr (VStr s)))"
proof (intro conjI impI)
  assume c: "(\<exists>v. extractText_try resp = Inr v) \<or> (\<exists>t. js_String resp = Inr t)"
  show "\<exists>s. extractText resp = Inr (VStr s)"
  proof (cases "extractText_try resp")
    case (Inl e)
    with c obtain t where "js_String resp = Inr t" by auto
    with Inl show ?thesis by (simp add: extractText_def)
  next
    case (Inr v)
    with try_results_are_strings[OF assms, of v] have "is_string v" by simp
    then obtain s where "v = VStr s" by (cases v) auto
    with Inr show ?thesis by (simp add: extractText_def)
  qed
next
  assume a: "resp \<noteq> VUndef \<and>
    ((\<exists>v. extractText_suggest_try resp = Inr v) \<or> (\<exists>t. js_String resp = Inr t))"
  show "\<exists>s. extractText_suggest resp = Inr (VStr s)"
  proof (cases "extractText_suggest_try resp")
    case (Inl e)
    with a obtain t where "js_String resp = Inr t" by auto
    with Inl show ?thesis by (simp add: extractText_suggest_def)
  next
    case (Inr v)
    with try_results_are_strings[OF assms, of v] a have "is_string v" by simp
    then obtain s where "v = VStr s" by (cases v) auto
    with Inr show ?thesis by (simp add: extractText_suggest_def)
  qed
qed

text \<open>
  Responses on which an extractor does not return a string: \<open>undefined\<close> on the internal
  route (\<open>JSON.stringify(undefined)\<close> is \<open>undefined\<close>); an object whose \<open>text()\<close>, or
  whose \<open>response.text()\<close>, yields something that is no string (the result of the
  accessor is returned as it is); a function, a symbol and an object whose \<open>toJSON()\<close>
  yields \<open>undefined\<close> (\<open>JSON.stringify\<close> gives \<open>undefined\<close> for them); and an object with
  a \<open>null\<close> candidate and an own \<open>toString\<close> that is no function, for which the \<open>try\<close>
  block throws and \<open>String(resp)\<close> throws again in the \<open>catch\<close> block.
\<close>

theorem extractors_not_total_counterexample:
  "extractText_suggest VUndef = Inr VUndef \<and>
   extractText (VObj [(asc ''text'', VFun (asc ''() => 42'') (Some (VNum (Num False True (asc ''42'')))))])
     = Inr (VNum (Num False True (asc ''42''))) \<and>
   extractText (VObj [(asc ''response'',
                       VObj [(asc ''text'', VFun (asc ''() => null'') (Some VNull))])])
     = Inr VNull \<and>
   extractText (VFun (asc ''() => 1'') (Some (VNum (Num False True (asc ''1''))))) = Inr VUndef \<and>
   extractText (VSym (asc ''x'')) = Inr VUndef \<and>
   extractText (VObj [(asc ''toJSON'', VFun (asc ''() => undefined'') (Some VUndef))]) = Inr VUndef \<and>
   extractText (VObj [(asc ''candidates'', VArr [VNull]), (asc ''toString'', VNull)])
     = Inl TypeError"
  by code_simp

theorem extractors_return_strings_witness:
  "accessors_yield_strings
     (VObj [(asc ''text'', VFun (asc ''() => s'') (Some (VStr (asc ''hi''))))]) \<and>
   extractText (VObj [(asc ''text'', VFun (asc ''() => s'') (Some (VStr (asc ''hi''))))])
     = Inr (VStr (asc ''hi'')) \<and>
   extractText_suggest (VObj [(asc ''text'', VFun (asc ''() => s'') (Some (VStr (asc ''hi''))))])
     = Inr (VStr (asc ''hi'')) \<and>
   accessors_yield_strings (VObj [(asc ''candidates'', VArr [VNull])]) \<and>
   js_String (VObj [(asc ''candidates'', VArr [VNull])]) = Inr (asc ''[object Object]'') \<and>
   extractText (VObj [(asc ''candidates'', VArr [VNull])]) = Inr (VStr (asc ''[object Object]'')) \<and>
   extractText_suggest (VObj [(asc ''candidates'', VArr [VNull])])
     = Inr (VStr (asc ''{\"candidates\":[null]}''))"
proof -
  let ?a = "VObj [(asc ''text'', VFun (asc ''() => s'') (Some (VStr (asc ''hi''))))]"
  let ?b = "VObj [(asc ''candidates'', VArr [VNull])]"
  have ha: "accessors_yield_strings ?a" by code_simp
  have ta: "extractText_try ?a = Inr (VStr (asc ''hi''))" by code_simp
  have ta': "extractText_suggest_try ?a = Inr (VStr (asc ''hi''))" by code_simp
  have hb: "accessors_yield_strings ?b" by code_simp
  have tb: "js_String ?b = Inr (asc ''[object Object]'')" by code_simp
  have eb: "extractText ?b = Inr (VStr (asc ''[object Object]''))" by code_simp
  have eb': "extractText_suggest ?b = Inr (VStr (asc ''{\"candidates\":[null]}''))" by code_simp
  from extractors_return_strings[OF ha] ta ta'
  have "(\<exists>s. extractText ?a = Inr (VStr s)) \<and> (\<exists>s. extractText_suggest ?a = Inr (VStr s))"
    by simp
  moreover have "extractText ?a = Inr (VStr (asc ''hi''))"
    by (simp add: extractText_def ta)
  moreover have "extractText_suggest ?a = Inr (VStr (asc ''hi''))"
    by (simp add: extractText_suggest_def ta')
  moreover from extractors_return_strings[OF hb] tb
  have "\<exists>s. extractText ?b = Inr (VStr s)" by blast
  ultimately show ?thesis using ha hb tb eb eb' by simp
qed

end
